theory Spec2Isabelle
  imports Complex_Main "HOL-Library.AList" "HOL-Library.List_Lexorder" "HOL-Library.Char_ord"
begin

section \<open>The name validator\<close>

text \<open>
  \<^verbatim>\<open>NameValidator\<close> constrains the text of the three name fields. Its pattern is
  \<^verbatim>\<open>re.compile(r'([\w]+)')\<close>, a text pattern, so the class \<^verbatim>\<open>\w\<close> is the regular
  expression engine's class of word characters for text: every alphanumeric character and
  the underscore. A character is modelled by \<^typ>\<open>char\<close>, read as the code point of that
  number, so the model covers the text whose code points lie below 256; \<open>is_word\<close> is the
  class \<^verbatim>\<open>\w\<close> on that range.
\<close>

datatype State = Invalid | Intermediate | Acceptable

definition is_word :: "char \<Rightarrow> bool" where
  "is_word c =
     (let n = (of_char c :: nat) in
        (48 \<le> n \<and> n \<le> 57) \<or> (65 \<le> n \<and> n \<le> 90) \<or> n = 95 \<or> (97 \<le> n \<and> n \<le> 122) \<or>
        n = 170 \<or> n = 178 \<or> n = 179 \<or> n = 181 \<or> n = 185 \<or> n = 186 \<or>
        n = 188 \<or> n = 189 \<or> n = 190 \<or>
        (192 \<le> n \<and> n \<le> 214) \<or> (216 \<le> n \<and> n \<le> 246) \<or> 248 \<le> n)"

text \<open>
  \<^verbatim>\<open>name_re.match(string)\<close>: the pattern is anchored at the start of the text and the
  repetition is greedy, so the match is the longest run of word characters the text starts
  with, and there is no match when that run is empty.
\<close>

definition name_re_match :: "string \<Rightarrow> string option" where
  "name_re_match string =
     (let matched = takeWhile is_word string in if matched = [] then None else Some matched)"

definition validate :: "bool \<Rightarrow> string \<Rightarrow> int \<Rightarrow> State \<times> string \<times> int" where
  "validate empty_allowed string position =
     (if string = [] then
        (if empty_allowed then (Acceptable, [], position)
         else (Intermediate, string, position))
      else
        (case name_re_match string of
           None \<Rightarrow> (Invalid, [], position)
         | Some matched \<Rightarrow>
             if matched = string then (Acceptable, string, position)
             else (Invalid, matched, position)))"

text \<open>The alphabet as the specification words it: the characters of \<^verbatim>\<open>[A-Za-z0-9_]\<close>.\<close>

definition spec_alphabet :: "char \<Rightarrow> bool" where
  "spec_alphabet c =
     (let n = (of_char c :: nat) in
        (48 \<le> n \<and> n \<le> 57) \<or> (65 \<le> n \<and> n \<le> 90) \<or> n = 95 \<or> (97 \<le> n \<and> n \<le> 122))"

section \<open>The marker\<close>

text \<open>
  A \<^verbatim>\<open>PoiMarker\<close> is an elliptic shape of the plotting library together with a text
  label. The record holds the marker's own attributes and, of the library objects, what
  the marker's methods write: the shape's position (its bounding box corner), size and pen,
  and the label's text, colour and position. \<open>ident\<close> stands for the identity of the
  Python object. Coordinates are real numbers, so the arithmetic is that of the source's
  expressions without rounding. The marker reads components 0 and 1 of a position only;
  the model passes it that pair.
\<close>

type_synonym pen = "string \<times> nat"

definition default_pen :: pen where
  "default_pen = (''#F0F'', 2)"

definition select_pen :: pen where
  "select_pen = (''#FFF'', 2)"

record PoiMarker =
  poi_name :: string
  selected :: bool
  position :: "real \<times> real"
  roi_pos :: "real \<times> real"
  roi_size :: "real \<times> real"
  roi_pen :: pen
  label_text :: string
  label_color :: string
  label_pos :: "real \<times> real"
  ident :: nat

definition radius :: "PoiMarker \<Rightarrow> real" where
  "radius m = fst (roi_size m) / 2"

definition set_position :: "real \<times> real \<Rightarrow> PoiMarker \<Rightarrow> PoiMarker" where
  "set_position pos m =
     (let radius = radius m;
          label_offset = radius / sqrt 2
      in m\<lparr>position := pos,
            roi_pos := (fst pos - radius, snd pos - radius),
            label_pos := (fst pos + label_offset, snd pos + label_offset)\<rparr>)"

text \<open>The library's \<^verbatim>\<open>setSize\<close> changes the size and leaves the corner where it is.\<close>

definition setSize :: "real \<times> real \<Rightarrow> PoiMarker \<Rightarrow> PoiMarker" where
  "setSize sz m = m\<lparr>roi_size := sz\<rparr>"

definition PoiMarker_init :: "real \<times> real \<Rightarrow> real \<Rightarrow> string \<Rightarrow> nat \<Rightarrow> PoiMarker" where
  "PoiMarker_init pos r name i =
     set_position pos
       \<lparr>poi_name = name, selected = False, position = pos,
        roi_pos = pos, roi_size = (2 * r, 2 * r), roi_pen = default_pen,
        label_text = name, label_color = fst default_pen, label_pos = (0, 0),
        ident = i\<rparr>"

definition set_name :: "string \<Rightarrow> PoiMarker \<Rightarrow> PoiMarker" where
  "set_name name m = m\<lparr>poi_name := name, label_text := name\<rparr>"

definition set_radius :: "real \<Rightarrow> PoiMarker \<Rightarrow> PoiMarker" where
  "set_radius r m =
     (let label_offset = r / sqrt 2;
          m1 = setSize (2 * r, 2 * r) m
      in m1\<lparr>roi_pos := (fst (position m1) - r, snd (position m1) - r),
             label_pos := (fst (position m1) + label_offset,
                           snd (position m1) + label_offset)\<rparr>)"

definition select :: "PoiMarker \<Rightarrow> PoiMarker" where
  "select m = m\<lparr>selected := True, roi_pen := select_pen, label_color := fst select_pen\<rparr>"

definition deselect :: "PoiMarker \<Rightarrow> PoiMarker" where
  "deselect m = m\<lparr>selected := False, roi_pen := default_pen, label_color := fst default_pen\<rparr>"

section \<open>The orchestrator\<close>

subsection \<open>Values and library objects\<close>

text \<open>
  A position of the backend is an array of three coordinates; \<open>xy\<close> is the slice
  \<^verbatim>\<open>position[:2]\<close>. A drift history is a two-dimensional array, held here by its
  columns: \<^verbatim>\<open>history.shape[1]\<close> is the number of columns and \<^verbatim>\<open>history[:, i]\<close> is column
  \<open>i\<close>.
\<close>

type_synonym pos3 = "real \<times> real \<times> real"

definition xy :: "pos3 \<Rightarrow> real \<times> real" where
  "xy p = (fst p, fst (snd p))"

type_synonym history = "real list list"

datatype error = KeyError string | ValueError string

text \<open>\<^verbatim>\<open>np.max\<close> of a one-dimensional array; it raises on an array without elements.\<close>

definition np_max :: "real list \<Rightarrow> error + real" where
  "np_max xs =
     (case xs of
        [] \<Rightarrow> Inl (ValueError ''zero-size array to reduction operation maximum which has no identity'')
      | x # r \<Rightarrow> Inr (fold max r x))"

text \<open>
  Signals and slots. A signal belongs to a widget of the window (named as in the layout),
  to the backend logic, to the orchestrator, or to one marker object. A connection is a
  pair of a signal and a slot; \<^verbatim>\<open>disconnect()\<close> without argument removes every
  connection of the signal. The connections listed are those the orchestrator's methods
  make. The connection that a marker's constructor makes from the shape's own click signal
  to the marker's own slot, which emits \<^verbatim>\<open>sigPoiSelected\<close>, stays inside the marker
  object and is not listed. In the paths modelled every signal that is disconnected has a
  connection; on a signal without one the model's \<open>disconnect\<close> changes nothing.
\<close>

datatype signal =
    UiSignal string string
  | LogicSignal string
  | GuiSignal string
  | MarkerPoiSelected nat

datatype slot = GuiSlot string | LogicSlot string | LambdaSlot string

type_synonym connection = "signal \<times> slot"

definition connect :: "signal \<Rightarrow> slot \<Rightarrow> connection list \<Rightarrow> connection list" where
  "connect sg sl cs = cs @ [(sg, sl)]"

definition disconnect :: "signal \<Rightarrow> connection list \<Rightarrow> connection list" where
  "disconnect sg cs = filter (\<lambda>c. fst c \<noteq> sg) cs"

text \<open>
  The dropdown of POI names. The layout file that declares it is not part of the sources;
  it is modelled as the widget library's plain (not editable) box: the first item added
  to an empty box becomes the current one, and \<^verbatim>\<open>setCurrentText\<close> selects the item with
  that text when there is one and does nothing otherwise.
\<close>

record ComboBox =
  items :: "string list"
  currentIndex :: int

definition clear :: "ComboBox \<Rightarrow> ComboBox" where
  "clear cb = \<lparr>items = [], currentIndex = -1\<rparr>"

definition addItems :: "string list \<Rightarrow> ComboBox \<Rightarrow> ComboBox" where
  "addItems texts cb =
     \<lparr>items = items cb @ texts,
      currentIndex = (if items cb = [] \<and> texts \<noteq> [] then 0 else currentIndex cb)\<rparr>"

fun findText :: "string \<Rightarrow> string list \<Rightarrow> int" where
  "findText t [] = -1"
| "findText t (x # xs) =
     (if x = t then 0 else (let i = findText t xs in if i < 0 then -1 else i + 1))"

definition setCurrentText :: "string \<Rightarrow> ComboBox \<Rightarrow> ComboBox" where
  "setCurrentText t cb =
     (let i = findText t (items cb) in if i > -1 then cb\<lparr>currentIndex := i\<rparr> else cb)"

definition setCurrentIndex :: "int \<Rightarrow> ComboBox \<Rightarrow> ComboBox" where
  "setCurrentIndex i cb = cb\<lparr>currentIndex := i\<rparr>"

definition currentText :: "ComboBox \<Rightarrow> string" where
  "currentText cb =
     (if 0 \<le> currentIndex cb \<and> currentIndex cb < int (length (items cb))
      then items cb ! nat (currentIndex cb) else [])"

datatype view_item = ShapeItem nat | LabelItem nat

fun item_ident :: "view_item \<Rightarrow> nat" where
  "item_ident (ShapeItem i) = i"
| "item_ident (LabelItem i) = i"

datatype MouseButton = LeftButton | RightButton | MiddleButton

datatype CursorShape = ArrowCursor | CrossCursor

subsection \<open>What the orchestrator reads from outside\<close>

text \<open>
  The properties of the backend logic that the modelled methods read, as they are at the
  moment of the call, and the library function \<^verbatim>\<open>natural_sort\<close>, which is imported from
  another package and taken as a parameter.
\<close>

record env =
  natural_sort :: "string list \<Rightarrow> string list"
  logic_poi_names :: "string list"
  logic_poi_positions :: "(string \<times> pos3) list"
  logic_active_poi :: "string option"
  logic_optimise_xy_size :: real
  logic_roi_origin :: pos3
  logic_roi_pos_history :: history
  logic_get_poi_position :: "string \<Rightarrow> pos3"

subsection \<open>The state of the orchestrator and its window\<close>

text \<open>
  \<open>markers\<close> is the dictionary \<^verbatim>\<open>_markers\<close> in insertion order. \<open>plot_items\<close> are the
  items of the scan image's plot widget, \<open>connections\<close> the live signal connections,
  \<open>log_error\<close> the messages given to \<^verbatim>\<open>log.error\<close>. A shift plot holds the two arrays
  last given to \<^verbatim>\<open>setData\<close>; \<open>poi_coords_label\<close> holds the position whose formatted text
  the label shows. \<open>next_ident\<close> numbers the marker objects created.
\<close>

record gui =
  markers :: "(string \<times> PoiMarker) list"
  poi_selector_active :: bool
  poi_selector_Action_checked :: bool
  roi_image_cursor :: CursorShape
  active_poi_ComboBox :: ComboBox
  poi_coords_label :: "pos3 option"
  plot_items :: "view_item list"
  connections :: "connection list"
  log_error :: "string list"
  time_units :: string
  x_shift_plot :: "real list \<times> real list"
  y_shift_plot :: "real list \<times> real list"
  z_shift_plot :: "real list \<times> real list"
  next_ident :: nat

text \<open>The state after \<^verbatim>\<open>__init__\<close>, before any window exists.\<close>

definition init_gui :: gui where
  "init_gui =
     \<lparr>markers = [], poi_selector_active = False, poi_selector_Action_checked = False,
      roi_image_cursor = ArrowCursor,
      active_poi_ComboBox = \<lparr>items = [], currentIndex = -1\<rparr>,
      poi_coords_label = None, plot_items = [], connections = [], log_error = [],
      time_units = [], x_shift_plot = ([], []), y_shift_plot = ([], []),
      z_shift_plot = ([], []), next_ident = 0\<rparr>"

subsection \<open>Markers of the orchestrator\<close>

definition add_to_view_widget :: "PoiMarker \<Rightarrow> view_item list \<Rightarrow> view_item list" where
  "add_to_view_widget m its = its @ [ShapeItem (ident m), LabelItem (ident m)]"

definition delete_from_view_widget :: "PoiMarker \<Rightarrow> view_item list \<Rightarrow> view_item list" where
  "delete_from_view_widget m its =
     filter (\<lambda>it. it \<noteq> ShapeItem (ident m))
       (filter (\<lambda>it. it \<noteq> LabelItem (ident m)) its)"

definition add_poi_marker :: "env \<Rightarrow> string \<Rightarrow> pos3 \<Rightarrow> gui \<Rightarrow> gui" where
  "add_poi_marker e name pos s =
     (if name \<noteq> [] then
        (if name \<in> fst ` set (markers s) then
           s\<lparr>log_error := log_error s @
               [''Unable to add POI marker to ROI image. POI marker already present.'']\<rparr>
         else
           (let marker = PoiMarker_init (xy pos) (logic_optimise_xy_size e / sqrt 2) name
                           (next_ident s)
            in s\<lparr>next_ident := Suc (next_ident s),
                  plot_items := add_to_view_widget marker (plot_items s),
                  connections := connect (MarkerPoiSelected (ident marker))
                                   (LogicSlot ''set_active_poi'') (connections s),
                  markers := AList.update name marker (markers s)\<rparr>))
      else s)"

definition remove_poi_marker :: "string \<Rightarrow> gui \<Rightarrow> gui" where
  "remove_poi_marker name s =
     (case map_of (markers s) name of
        Some marker \<Rightarrow>
          s\<lparr>plot_items := delete_from_view_widget marker (plot_items s),
            connections := disconnect (MarkerPoiSelected (ident marker)) (connections s),
            markers := AList.delete name (markers s)\<rparr>
      | None \<Rightarrow> s)"

subsection \<open>The drift history plot\<close>

definition update_roi_history :: "env \<Rightarrow> history option \<Rightarrow> gui \<Rightarrow> error + gui" where
  "update_roi_history e history_arg s =
     (let history = (case history_arg of None \<Rightarrow> logic_roi_pos_history e | Some h \<Rightarrow> h)
      in if length history \<noteq> 4 then
           Inr (s\<lparr>log_error := log_error s @
                    [''ROI history must be an array of type float[][4].'']\<rparr>)
         else
           (case np_max (history ! 0) of
              Inl err \<Rightarrow> Inl err
            | Inr max_time \<Rightarrow>
                (let (units, time_arr) =
                       (if max_time < 300 then (''s'', history ! 0)
                        else if max_time < 7200 then (''min'', map (\<lambda>t. t / 60) (history ! 0))
                        else if max_time < 172800 then
                          (''h'', map (\<lambda>t. t / 3600) (history ! 0))
                        else (''d'', map (\<lambda>t. t / 86400) (history ! 0)))
                 in Inr (s\<lparr>time_units := units,
                            x_shift_plot := (time_arr, history ! 1),
                            y_shift_plot := (time_arr, history ! 2),
                            z_shift_plot := (time_arr, history ! 3)\<rparr>))))"

subsection \<open>Reconciling the markers with the backend's POIs\<close>

text \<open>
  The loop over the remaining markers: each is resized and moved to the position the
  mapping has for its name. A name the mapping lacks raises.
\<close>

fun reposition_markers ::
  "real \<Rightarrow> (string \<times> pos3) list \<Rightarrow> (string \<times> PoiMarker) list \<Rightarrow>
   error + (string \<times> PoiMarker) list" where
  "reposition_markers sz poi_dict [] = Inr []"
| "reposition_markers sz poi_dict ((name, marker) # ms) =
     (case map_of poi_dict name of
        None \<Rightarrow> Inl (KeyError name)
      | Some pos \<Rightarrow>
          (case reposition_markers sz poi_dict ms of
             Inl err \<Rightarrow> Inl err
           | Inr ms' \<Rightarrow>
               Inr ((name, set_position (xy pos) (setSize (sz, sz) marker)) # ms')))"

fun add_new_markers ::
  "env \<Rightarrow> (string \<times> pos3) list \<Rightarrow> string list \<Rightarrow> gui \<Rightarrow> error + gui" where
  "add_new_markers e poi_dict [] s = Inr s"
| "add_new_markers e poi_dict (name # names) s =
     (case map_of poi_dict name of
        None \<Rightarrow> Inl (KeyError name)
      | Some pos \<Rightarrow> add_new_markers e poi_dict names (add_poi_marker e name pos s))"

text \<open>
  The last block of \<^verbatim>\<open>_update_pois\<close>: the backend's active POI, a name or nothing, is
  shown and its marker selected when it is among the names, and the dropdown is set to no
  selection otherwise.
\<close>

definition show_active_poi ::
  "env \<Rightarrow> (string \<times> pos3) list \<Rightarrow> string list \<Rightarrow> gui \<Rightarrow> error + gui" where
  "show_active_poi e poi_dict poi_names s =
     (case logic_active_poi e of
        None \<Rightarrow>
          Inr (s\<lparr>active_poi_ComboBox := setCurrentIndex (-1) (active_poi_ComboBox s)\<rparr>)
      | Some active \<Rightarrow>
          if active \<in> set poi_names then
            (case map_of (markers s) active of
               None \<Rightarrow> Inl (KeyError active)
             | Some marker \<Rightarrow>
                 (case map_of poi_dict active of
                    None \<Rightarrow> Inl (KeyError active)
                  | Some active_poi_pos \<Rightarrow>
                      Inr (s\<lparr>active_poi_ComboBox :=
                                setCurrentText active (active_poi_ComboBox s),
                              markers := AList.update active (select marker) (markers s),
                              poi_coords_label := Some active_poi_pos\<rparr>)))
          else
            Inr (s\<lparr>active_poi_ComboBox := setCurrentIndex (-1) (active_poi_ComboBox s)\<rparr>))"

text \<open>
  \<^verbatim>\<open>_update_pois\<close>. The two name lists come from set differences, whose iteration order
  the language leaves open; the model takes the names to delete in the order of the
  dictionary and the names to add in the order of the sorted names.
\<close>

definition update_pois :: "env \<Rightarrow> (string \<times> pos3) list \<Rightarrow> gui \<Rightarrow> error + gui" where
  "update_pois e poi_dict s =
     (let poi_names = natural_sort e (map fst poi_dict);
          s1 = s\<lparr>active_poi_ComboBox := addItems poi_names (clear (active_poi_ComboBox s))\<rparr>;
          old_poi_names = map fst (markers s1);
          names_to_delete = filter (\<lambda>n. n \<notin> set poi_names) old_poi_names;
          names_to_add = remdups (filter (\<lambda>n. n \<notin> set old_poi_names) poi_names);
          s2 = fold remove_poi_marker names_to_delete s1;
          sz = logic_optimise_xy_size e * sqrt 2
      in case reposition_markers sz poi_dict (markers s2) of
           Inl err \<Rightarrow> Inl err
         | Inr ms \<Rightarrow>
             (case add_new_markers e poi_dict names_to_add (s2\<lparr>markers := ms\<rparr>) of
                Inl err \<Rightarrow> Inl err
              | Inr s3 \<Rightarrow> show_active_poi e poi_dict poi_names s3))"

subsection \<open>Notifications about one POI and about the active POI\<close>

definition update_poi :: "env \<Rightarrow> string \<Rightarrow> string \<Rightarrow> pos3 \<Rightarrow> gui \<Rightarrow> error + gui" where
  "update_poi e old_name new_name pos s =
     (let s1 =
            (if old_name \<noteq> new_name then
               (let text_active_poi = currentText (active_poi_ComboBox s);
                    cb = addItems (natural_sort e (logic_poi_names e))
                           (clear (active_poi_ComboBox s))
                in s\<lparr>active_poi_ComboBox :=
                       (if text_active_poi = old_name then setCurrentText new_name cb
                        else setCurrentText text_active_poi cb)\<rparr>)
             else s);
          r =
            (if old_name = [] then Inr (add_poi_marker e new_name pos s1)
             else if new_name = [] then Inr (remove_poi_marker old_name s1)
             else
               (let sz = logic_optimise_xy_size e * sqrt 2
                in case map_of (markers s1) old_name of
                     None \<Rightarrow> Inl (KeyError old_name)
                   | Some marker \<Rightarrow>
                       Inr (s1\<lparr>markers :=
                                 AList.update new_name
                                   (set_position (xy pos)
                                      (setSize (sz, sz) (set_name new_name marker)))
                                   (AList.delete old_name (markers s1))\<rparr>)))
      in case r of
           Inl err \<Rightarrow> Inl err
         | Inr s2 \<Rightarrow>
             (let active = currentText (active_poi_ComboBox s2)
              in if active \<noteq> [] then
                   (case map_of (markers s2) active of
                      None \<Rightarrow> Inl (KeyError active)
                    | Some marker \<Rightarrow>
                        Inr (s2\<lparr>markers := AList.update active (select marker) (markers s2)\<rparr>))
                 else Inr s2))"

text \<open>The loop that deselects the first selected marker and stops.\<close>

fun deselect_current :: "(string \<times> PoiMarker) list \<Rightarrow> (string \<times> PoiMarker) list" where
  "deselect_current [] = []"
| "deselect_current ((name, marker) # ms) =
     (if selected marker then (name, deselect marker) # ms
      else (name, marker) # deselect_current ms)"

definition update_active_poi :: "env \<Rightarrow> string \<Rightarrow> gui \<Rightarrow> gui" where
  "update_active_poi e name s =
     (let s1 = s\<lparr>markers := deselect_current (markers s)\<rparr>;
          s2 = s1\<lparr>active_poi_ComboBox :=
                    (if name = [] then setCurrentIndex (-1) (active_poi_ComboBox s1)
                     else setCurrentText name (active_poi_ComboBox s1))\<rparr>;
          active_poi_pos = (if name \<noteq> [] then logic_get_poi_position e name else (0, 0, 0));
          s3 = s2\<lparr>poi_coords_label := Some active_poi_pos\<rparr>
      in case map_of (markers s3) name of
           Some marker \<Rightarrow>
             s3\<lparr>markers :=
                  AList.update name
                    (select (set_radius (logic_optimise_xy_size e / sqrt 2) marker))
                    (markers s3)\<rparr>
         | None \<Rightarrow> s3)"

subsection \<open>The POI placement mode\<close>

definition sigMouseClicked :: signal where
  "sigMouseClicked = UiSignal ''roi_image'' ''sigMouseClicked''"

definition sigAddPoiByClick :: signal where
  "sigAddPoiByClick = GuiSignal ''sigAddPoiByClick''"

definition toggle_poi_selector :: "bool \<Rightarrow> gui \<Rightarrow> gui" where
  "toggle_poi_selector is_active s =
     (let s1 = (if is_active \<noteq> poi_selector_Action_checked s
                then s\<lparr>poi_selector_Action_checked := is_active\<rparr> else s);
          s2 = (if is_active \<noteq> poi_selector_active s1 then
                  (if is_active then
                     s1\<lparr>connections :=
                          connect sigMouseClicked (GuiSlot ''create_poi_from_click'')
                            (connections s1),
                        roi_image_cursor := CrossCursor\<rparr>
                   else
                     s1\<lparr>connections := disconnect sigMouseClicked (connections s1),
                        roi_image_cursor := ArrowCursor\<rparr>)
                else s1)
      in s2\<lparr>poi_selector_active := is_active\<rparr>)"

text \<open>
  \<^verbatim>\<open>create_poi_from_click\<close> returns the positions it emits with \<^verbatim>\<open>sigAddPoiByClick\<close>:
  none for a button other than the left one, otherwise the ROI origin with its first two
  components replaced by those of the click.
\<close>

definition create_poi_from_click :: "env \<Rightarrow> real \<times> real \<Rightarrow> MouseButton \<Rightarrow> pos3 list" where
  "create_poi_from_click e pos button =
     (if button \<noteq> LeftButton then []
      else [(fst pos, snd pos, snd (snd (logic_roi_origin e)))])"

text \<open>
  A click on the scan image makes the image widget emit \<^verbatim>\<open>sigMouseClicked\<close>. Each
  connection of that signal to \<^verbatim>\<open>create_poi_from_click\<close> runs the slot, and each position
  the slot emits goes to every backend slot connected to \<^verbatim>\<open>sigAddPoiByClick\<close>. The
  result lists the backend calls: the name of the backend slot and the position given.
\<close>

definition emit_sigAddPoiByClick :: "gui \<Rightarrow> pos3 \<Rightarrow> (string \<times> pos3) list" where
  "emit_sigAddPoiByClick s new_pos =
     concat (map (\<lambda>c. case c of
                         (sg, LogicSlot name) \<Rightarrow>
                           if sg = sigAddPoiByClick then [(name, new_pos)] else []
                       | _ \<Rightarrow> [])
               (connections s))"

definition mouse_click :: "env \<Rightarrow> gui \<Rightarrow> real \<times> real \<Rightarrow> MouseButton \<Rightarrow> (string \<times> pos3) list" where
  "mouse_click e s pos button =
     concat (map (\<lambda>c. if c = (sigMouseClicked, GuiSlot ''create_poi_from_click'')
                       then concat (map (emit_sigAddPoiByClick s)
                                      (create_poi_from_click e pos button))
                       else [])
               (connections s))"

subsection \<open>Activation and deactivation\<close>

text \<open>
  The connections the three connecting methods make, in the order of the source. A slot
  that is a lambda expression is named by the call it makes.
\<close>

definition internal_connections :: "connection list" where
  "internal_connections =
     [(UiSignal ''track_period_SpinBox'' ''editingFinished'', GuiSlot ''track_period_changed''),
      (UiSignal ''poi_threshold_doubleSpinBox'' ''editingFinished'',
         GuiSlot ''poi_threshold_changed''),
      (UiSignal ''poi_diameter_doubleSpinBox'' ''editingFinished'',
         GuiSlot ''poi_diameter_changed''),
      (UiSignal ''roi_name_LineEdit'' ''editingFinished'', GuiSlot ''roi_name_changed''),
      (UiSignal ''poi_name_LineEdit'' ''returnPressed'', GuiSlot ''poi_name_changed''),
      (UiSignal ''poi_nametag_LineEdit'' ''editingFinished'', GuiSlot ''poi_nametag_changed''),
      (UiSignal ''save_roi_Action'' ''triggered'', GuiSlot ''save_roi''),
      (UiSignal ''load_roi_Action'' ''triggered'', GuiSlot ''load_roi''),
      (UiSignal ''blink_correction_view_Action'' ''triggered'',
         GuiSlot ''toggle_blink_correction''),
      (UiSignal ''poi_selector_Action'' ''toggled'', GuiSlot ''toggle_poi_selector''),
      (UiSignal ''restore_default_view_Action'' ''triggered'', GuiSlot ''restore_default_view''),
      (UiSignal ''roi_map_view_Action'' ''triggered'', LambdaSlot ''toggle_roi_map''),
      (UiSignal ''poi_editor_view_Action'' ''triggered'',
         LambdaSlot ''poi_editor_dockWidget.setVisible''),
      (UiSignal ''poi_tracker_view_Action'' ''triggered'',
         LambdaSlot ''poi_tracker_dockWidget.setVisible''),
      (UiSignal ''auto_pois_view_Action'' ''triggered'',
         LambdaSlot ''auto_pois_dockWidget.setVisible''),
      (UiSignal ''auto_pois_view_Action'' ''triggered'',
         LambdaSlot ''auto_find_POIs_Action.setVisible''),
      (UiSignal ''sample_shift_view_Action'' ''triggered'',
         LambdaSlot ''sample_shift_dockWidget.setVisible''),
      (UiSignal ''roi_management_view_Action'' ''triggered'',
         LambdaSlot ''roi_management_ToolBar.setVisible''),
      (UiSignal ''poi_tools_view_Action'' ''triggered'', LambdaSlot ''poi_ToolBar.setVisible'')]"

definition update_connections :: "connection list" where
  "update_connections =
     [(LogicSignal ''sigOptimizeTimerUpdated'', GuiSlot ''update_refocus_timer''),
      (LogicSignal ''sigPoiUpdated'', GuiSlot ''update_poi''),
      (LogicSignal ''sigActivePoiUpdated'', GuiSlot ''update_active_poi''),
      (LogicSignal ''sigRoiUpdated'', GuiSlot ''update_roi''),
      (LogicSignal ''sigOptimizeStateUpdated'', GuiSlot ''update_refocus_state''),
      (LogicSignal ''sigThresholdUpdated'', GuiSlot ''_update_poi_threshold''),
      (LogicSignal ''sigDiameterUpdated'', GuiSlot ''_update_poi_diameter'')]"

definition control_connections :: "connection list" where
  "control_connections =
     [(UiSignal ''new_poi_Action'' ''triggered'', LogicSlot ''add_poi''),
      (UiSignal ''auto_pois_PushButton'' ''clicked'', LogicSlot ''auto_catch_poi''),
      (UiSignal ''del_all_pois_PushButton'' ''clicked'', GuiSlot ''delete_all_pois_clicked''),
      (UiSignal ''goto_poi_Action'' ''triggered'', LambdaSlot ''go_to_poi''),
      (UiSignal ''new_roi_Action'' ''triggered'', LogicSlot ''reset_roi''),
      (UiSignal ''refind_poi_Action'' ''triggered'', LogicSlot ''optimise_poi_position''),
      (UiSignal ''get_confocal_image_PushButton'' ''clicked'', LambdaSlot ''set_scan_image''),
      (UiSignal ''set_poi_PushButton'' ''clicked'', LogicSlot ''add_poi''),
      (UiSignal ''delete_last_pos_Button'' ''clicked'', LambdaSlot ''delete_history_entry''),
      (UiSignal ''manual_update_poi_PushButton'' ''clicked'',
         LogicSlot ''move_roi_from_poi_position''),
      (UiSignal ''move_poi_PushButton'' ''clicked'', LogicSlot ''set_poi_anchor_from_position''),
      (UiSignal ''delete_poi_PushButton'' ''clicked'', LambdaSlot ''delete_poi''),
      (UiSignal ''active_poi_ComboBox'' ''activated'', LogicSlot ''set_active_poi''),
      (UiSignal ''goto_poi_after_update_checkBox'' ''stateChanged'',
         LogicSlot ''set_move_scanner_after_optimise''),
      (UiSignal ''track_poi_Action'' ''triggered'', LogicSlot ''toggle_periodic_refocus''),
      (GuiSignal ''sigTrackPeriodChanged'', LogicSlot ''set_refocus_period''),
      (GuiSignal ''sigPoiThresholdChanged'', LogicSlot ''set_poi_threshold''),
      (GuiSignal ''sigPoiDiameterChanged'', LogicSlot ''set_poi_diameter''),
      (GuiSignal ''sigRoiNameChanged'', LogicSlot ''rename_roi''),
      (GuiSignal ''sigPoiNameChanged'', LogicSlot ''rename_poi''),
      (GuiSignal ''sigPoiNameTagChanged'', LogicSlot ''set_poi_nametag''),
      (GuiSignal ''sigAddPoiByClick'', LogicSlot ''add_poi'')]"

definition connect_all :: "connection list \<Rightarrow> gui \<Rightarrow> gui" where
  "connect_all cs s =
     s\<lparr>connections := fold (\<lambda>c. connect (fst c) (snd c)) cs (connections s)\<rparr>"

definition connect_internal_signals :: "gui \<Rightarrow> gui" where
  "connect_internal_signals = connect_all internal_connections"

definition connect_update_signals_from_logic :: "gui \<Rightarrow> gui" where
  "connect_update_signals_from_logic = connect_all update_connections"

definition connect_control_signals_to_logic :: "gui \<Rightarrow> gui" where
  "connect_control_signals_to_logic = connect_all control_connections"

text \<open>The signals the three disconnecting methods disconnect, in the order of the source.\<close>

definition disconnect_all :: "signal list \<Rightarrow> gui \<Rightarrow> gui" where
  "disconnect_all sgs s = s\<lparr>connections := fold disconnect sgs (connections s)\<rparr>"

definition update_disconnected :: "signal list" where
  "update_disconnected =
     [LogicSignal ''sigOptimizeTimerUpdated'', LogicSignal ''sigPoiUpdated'',
      LogicSignal ''sigActivePoiUpdated'', LogicSignal ''sigRoiUpdated'',
      LogicSignal ''sigOptimizeStateUpdated'']"

definition control_disconnected :: "signal list" where
  "control_disconnected =
     [UiSignal ''new_poi_Action'' ''triggered'',
      UiSignal ''goto_poi_Action'' ''triggered'',
      UiSignal ''new_roi_Action'' ''triggered'',
      UiSignal ''refind_poi_Action'' ''triggered'',
      UiSignal ''get_confocal_image_PushButton'' ''clicked'',
      UiSignal ''set_poi_PushButton'' ''clicked'',
      UiSignal ''delete_last_pos_Button'' ''clicked'',
      UiSignal ''manual_update_poi_PushButton'' ''clicked'',
      UiSignal ''move_poi_PushButton'' ''clicked'',
      UiSignal ''delete_poi_PushButton'' ''clicked'',
      UiSignal ''active_poi_ComboBox'' ''activated'',
      UiSignal ''goto_poi_after_update_checkBox'' ''stateChanged'',
      UiSignal ''track_poi_Action'' ''triggered'',
      GuiSignal ''sigTrackPeriodChanged'',
      GuiSignal ''sigPoiThresholdChanged'',
      GuiSignal ''sigPoiDiameterChanged'',
      GuiSignal ''sigRoiNameChanged'',
      GuiSignal ''sigPoiNameChanged'',
      GuiSignal ''sigPoiNameTagChanged'',
      GuiSignal ''sigAddPoiByClick'']"

definition internal_disconnected :: "signal list" where
  "internal_disconnected =
     [UiSignal ''track_period_SpinBox'' ''editingFinished'',
      UiSignal ''roi_name_LineEdit'' ''editingFinished'',
      UiSignal ''poi_name_LineEdit'' ''returnPressed'',
      UiSignal ''poi_nametag_LineEdit'' ''editingFinished'',
      UiSignal ''save_roi_Action'' ''triggered'',
      UiSignal ''load_roi_Action'' ''triggered'',
      UiSignal ''blink_correction_view_Action'' ''triggered'',
      UiSignal ''poi_selector_Action'' ''toggled'',
      UiSignal ''restore_default_view_Action'' ''triggered'',
      UiSignal ''roi_map_view_Action'' ''triggered'',
      UiSignal ''poi_editor_view_Action'' ''triggered'',
      UiSignal ''poi_tracker_view_Action'' ''triggered'',
      UiSignal ''auto_pois_view_Action'' ''triggered'',
      UiSignal ''sample_shift_view_Action'' ''triggered'',
      UiSignal ''roi_management_view_Action'' ''triggered'',
      UiSignal ''poi_tools_view_Action'' ''triggered'']"

definition disconnect_update_signals_from_logic :: "gui \<Rightarrow> gui" where
  "disconnect_update_signals_from_logic = disconnect_all update_disconnected"

text \<open>
  After the signals of the window and of the orchestrator, the method disconnects the
  \<^verbatim>\<open>sigPoiSelected\<close> signal of every marker in the dictionary.
\<close>

definition disconnect_control_signals_to_logic :: "gui \<Rightarrow> gui" where
  "disconnect_control_signals_to_logic s =
     disconnect_all (map (\<lambda>p. MarkerPoiSelected (ident (snd p))) (markers s))
       (disconnect_all control_disconnected s)"

definition disconnect_internal_signals :: "gui \<Rightarrow> gui" where
  "disconnect_internal_signals = disconnect_all internal_disconnected"

text \<open>
  \<^verbatim>\<open>on_activate\<close>, as far as it writes the modelled state: the marker dictionary is
  emptied, a new window is built (its dropdown, plot and action start empty and
  unchecked), the history plots are created and filled, the markers are built from the
  backend's POIs, and the three groups of connections are made. The statements left out
  arrange the docks and write text fields and spin boxes.
\<close>

definition new_window :: "gui \<Rightarrow> gui" where
  "new_window s =
     s\<lparr>poi_selector_Action_checked := False, roi_image_cursor := ArrowCursor,
       active_poi_ComboBox := \<lparr>items = [], currentIndex = -1\<rparr>,
       poi_coords_label := None, plot_items := []\<rparr>"

definition init_roi_history_plot :: "env \<Rightarrow> gui \<Rightarrow> error + gui" where
  "init_roi_history_plot e s =
     update_roi_history e (Some (logic_roi_pos_history e))
       (s\<lparr>x_shift_plot := ([0], [0]), y_shift_plot := ([0], [0]),
          z_shift_plot := ([0], [0]), time_units := ''s''\<rparr>)"

definition on_activate :: "env \<Rightarrow> gui \<Rightarrow> error + gui" where
  "on_activate e s =
     (case init_roi_history_plot e (new_window (s\<lparr>markers := []\<rparr>)) of
        Inl err \<Rightarrow> Inl err
      | Inr s1 \<Rightarrow>
          (case update_pois e (logic_poi_positions e) s1 of
             Inl err \<Rightarrow> Inl err
           | Inr s2 \<Rightarrow>
               Inr (connect_control_signals_to_logic
                      (connect_update_signals_from_logic
                         (connect_internal_signals s2)))))"

definition on_deactivate :: "gui \<Rightarrow> gui" where
  "on_deactivate s =
     disconnect_internal_signals
       (disconnect_update_signals_from_logic
          (disconnect_control_signals_to_logic
             (toggle_poi_selector False s)))"

text \<open>The connections that no disconnecting method of the source names.\<close>

definition never_disconnected :: "connection list" where
  "never_disconnected =
     [(UiSignal ''poi_threshold_doubleSpinBox'' ''editingFinished'',
         GuiSlot ''poi_threshold_changed''),
      (UiSignal ''poi_diameter_doubleSpinBox'' ''editingFinished'',
         GuiSlot ''poi_diameter_changed''),
      (LogicSignal ''sigThresholdUpdated'', GuiSlot ''_update_poi_threshold''),
      (LogicSignal ''sigDiameterUpdated'', GuiSlot ''_update_poi_diameter''),
      (UiSignal ''auto_pois_PushButton'' ''clicked'', LogicSlot ''auto_catch_poi''),
      (UiSignal ''del_all_pois_PushButton'' ''clicked'', GuiSlot ''delete_all_pois_clicked'')]"

subsection \<open>Concrete backends and states for the examples\<close>

text \<open>
  A backend with given POIs and active POI, one drift sample at time 0, an optimisation
  size of 2 and the ROI origin \<open>(10, 20, 30)\<close>. The names are sorted by the order of their
  characters, which is the natural order for names without digits.
\<close>

definition backend :: "string option \<Rightarrow> (string \<times> pos3) list \<Rightarrow> env" where
  "backend active pois =
     \<lparr>natural_sort = sort, logic_poi_names = map fst pois, logic_poi_positions = pois,
      logic_active_poi = active, logic_optimise_xy_size = 2, logic_roi_origin = (10, 20, 30),
      logic_roi_pos_history = [[0], [0], [0], [0]],
      logic_get_poi_position = (\<lambda>name. case map_of pois name of Some p \<Rightarrow> p | None \<Rightarrow> (0, 0, 0))\<rparr>"

definition pois_AB :: "(string \<times> pos3) list" where
  "pois_AB = [(''A'', (1, 2, 3)), (''B'', (4, 5, 6))]"

definition pois_BC :: "(string \<times> pos3) list" where
  "pois_BC = [(''B'', (7, 8, 9)), (''C'', (1, 1, 1))]"

text \<open>
  The state with the markers of \<open>A\<close> and \<open>B\<close>, as \<^verbatim>\<open>_update_pois\<close> builds it from the
  state after \<^verbatim>\<open>__init__\<close> when \<open>A\<close> is the backend's active POI.
\<close>

definition gui_AB :: gui where
  "gui_AB =
     init_gui
       \<lparr>markers := [(''A'', select (PoiMarker_init (1, 2) (2 / sqrt 2) ''A'' 0)),
                    (''B'', PoiMarker_init (4, 5) (2 / sqrt 2) ''B'' 1)],
        active_poi_ComboBox := \<lparr>items = [''A'', ''B''], currentIndex = 0\<rparr>,
        poi_coords_label := Some (1, 2, 3),
        plot_items := [ShapeItem 0, LabelItem 0, ShapeItem 1, LabelItem 1],
        connections := [(MarkerPoiSelected 0, LogicSlot ''set_active_poi''),
                        (MarkerPoiSelected 1, LogicSlot ''set_active_poi'')],
        next_ident := 2\<rparr>"

text \<open>
  The state that \<^verbatim>\<open>_update_pois\<close> builds from \<open>gui_AB\<close> when the mapping is the same and
  \<open>B\<close> has become the backend's active POI: both markers are resized and moved, the
  marker of \<open>B\<close> is selected, and the marker of \<open>A\<close> is selected still.
\<close>

definition gui_AB_both :: gui where
  "gui_AB_both =
     gui_AB
       \<lparr>markers :=
          [(''A'', set_position (1, 2) (setSize (2 * sqrt 2, 2 * sqrt 2)
                     (select (PoiMarker_init (1, 2) (2 / sqrt 2) ''A'' 0)))),
           (''B'', select (set_position (4, 5) (setSize (2 * sqrt 2, 2 * sqrt 2)
                     (PoiMarker_init (4, 5) (2 / sqrt 2) ''B'' 1))))],
        active_poi_ComboBox := \<lparr>items = [''A'', ''B''], currentIndex = 1\<rparr>,
        poi_coords_label := Some (4, 5, 6)\<rparr>"

subsection \<open>Predicates used to state the properties\<close>

text \<open>
  \<open>created e poi_dict s s' p\<close>: the dictionary entry \<open>p\<close> of the state \<open>s'\<close> holds a marker
  object that did not exist in the state \<open>s\<close>, built by the constructor for the name of
  the entry at the position the mapping has for it, attached to the plot and connected to
  the backend.
\<close>

definition created ::
  "env \<Rightarrow> (string \<times> pos3) list \<Rightarrow> gui \<Rightarrow> gui \<Rightarrow> string \<times> PoiMarker \<Rightarrow> bool" where
  "created e poi_dict s s' p \<longleftrightarrow>
     snd p = PoiMarker_init (xy (the (map_of poi_dict (fst p))))
               (logic_optimise_xy_size e / sqrt 2) (fst p) (ident (snd p)) \<and>
     next_ident s \<le> ident (snd p) \<and> ident (snd p) < next_ident s' \<and>
     ShapeItem (ident (snd p)) \<in> set (plot_items s') \<and>
     LabelItem (ident (snd p)) \<in> set (plot_items s') \<and>
     (MarkerPoiSelected (ident (snd p)), LogicSlot ''set_active_poi'') \<in> set (connections s')"

text \<open>
  \<open>grown s s'\<close>: from \<open>s\<close> to \<open>s'\<close> plot items and connections were only added, and what
  was added belongs to marker objects created in between.
\<close>

definition grown :: "gui \<Rightarrow> gui \<Rightarrow> bool" where
  "grown s s' \<longleftrightarrow>
     next_ident s \<le> next_ident s' \<and>
     set (plot_items s) \<subseteq> set (plot_items s') \<and>
     set (connections s) \<subseteq> set (connections s') \<and>
     (\<forall>it\<in>set (plot_items s'). it \<in> set (plot_items s) \<or> next_ident s \<le> item_ident it) \<and>
     (\<forall>c\<in>set (connections s'). c \<in> set (connections s) \<or>
         (\<exists>i\<ge>next_ident s. c = (MarkerPoiSelected i, LogicSlot ''set_active_poi''))) \<and>
     active_poi_ComboBox s' = active_poi_ComboBox s \<and>
     poi_selector_active s' = poi_selector_active s"

section \<open>Properties of the validator\<close>

lemma name_re_match_all:
  assumes "string \<noteq> []" and "\<forall>x\<in>set string. is_word x"
  shows "name_re_match string = Some string"
proof -
  have tw: "takeWhile is_word string = string"
    using assms(2) by (simp add: takeWhile_eq_all_conv)
  show ?thesis
    unfolding name_re_match_def Let_def tw using assms(1) by simp
qed

lemma spec_alphabet_is_word: "spec_alphabet c \<Longrightarrow> is_word c"
  by (auto simp: spec_alphabet_def is_word_def Let_def)

text \<open>
  C3, as the code has it. For every text and cursor position: a text that is a non-empty
  run of word characters is Acceptable and returned as it is; the empty text is Acceptable
  when \<open>empty_allowed\<close> holds and Intermediate otherwise; a text with a character that is
  not a word character is Invalid, and the correction is its longest prefix of word
  characters; the cursor position is returned unchanged in every case. The word characters
  are the engine's class, which contains every character of \<^verbatim>\<open>[A-Za-z0-9_]\<close>.
\<close>

theorem validate_word_class:
  "(string \<noteq> [] \<and> list_all is_word string \<longrightarrow>
      validate empty_allowed string cursor = (Acceptable, string, cursor)) \<and>
   validate empty_allowed [] cursor =
      (if empty_allowed then Acceptable else Intermediate, [], cursor) \<and>
   (\<not> list_all is_word string \<longrightarrow>
      validate empty_allowed string cursor =
        (Invalid, takeWhile is_word string, cursor)) \<and>
   (list_all spec_alphabet string \<longrightarrow> list_all is_word string)"
proof -
  have a: "validate empty_allowed string cursor = (Acceptable, string, cursor)"
    if "string \<noteq> []" "list_all is_word string"
    using that by (simp add: validate_def name_re_match_all list_all_iff)
  have b: "validate empty_allowed [] cursor =
      (if empty_allowed then Acceptable else Intermediate, [], cursor)"
    by (simp add: validate_def)
  have c: "validate empty_allowed string cursor =
      (Invalid, takeWhile is_word string, cursor)"
    if "\<not> list_all is_word string"
  proof -
    from that have ne: "string \<noteq> []" by auto
    from that have "\<not> (\<forall>x\<in>set string. is_word x)"
      by (simp add: list_all_iff)
    with ne show ?thesis
      by (auto simp: validate_def name_re_match_def Let_def)
  qed
  have d: "list_all is_word string" if "list_all spec_alphabet string"
    using that by (simp add: list_all_iff spec_alphabet_is_word)
  from a b c d show ?thesis by blast
qed

theorem validate_word_class_witness:
  "validate False ''ab cd'' 3 = (Invalid, ''ab'', 3) \<and>
   validate False ''poi_1'' 5 = (Acceptable, ''poi_1'', 5) \<and>
   validate True [] 0 = (Acceptable, [], 0)"
  using validate_word_class [of "''ab cd''" False 3]
        validate_word_class [of "''poi_1''" False 5]
        validate_word_class [of "[]" True 0]
  by (simp add: is_word_def)

text \<open>
  The claim C3 as it is worded fails: the text made of the one character with code point
  233 (a Latin small e with acute accent) holds a character outside \<^verbatim>\<open>[A-Za-z0-9_]\<close>,
  and it is Acceptable, not Invalid.
\<close>

theorem validate_accented_letter_counterexample:
  "\<not> spec_alphabet (char_of (233::nat)) \<and>
   validate False [char_of (233::nat)] 1 = (Acceptable, [char_of (233::nat)], 1)"
  by (simp add: spec_alphabet_def validate_def name_re_match_def is_word_def)

section \<open>Properties of the marker\<close>

text \<open>
  C6. Constructing a marker at \<open>(px, py)\<close> with radius \<open>r\<close> puts the shape's corner at
  \<open>(px - r, py - r)\<close> and the label at \<open>(px + r / sqrt 2, py + r / sqrt 2)\<close>;
  \<open>set_position\<close> does the same with the marker's current radius, \<open>set_radius\<close> with the
  marker's position and the new radius, and \<open>set_radius\<close> makes the shape \<open>2 * r\<close> wide and
  high.
\<close>

theorem marker_geometry:
  "roi_pos (PoiMarker_init (px, py) r name i) = (px - r, py - r) \<and>
   label_pos (PoiMarker_init (px, py) r name i) = (px + r / sqrt 2, py + r / sqrt 2) \<and>
   radius (PoiMarker_init (px, py) r name i) = r \<and>
   roi_pos (set_position (px, py) m) = (px - radius m, py - radius m) \<and>
   label_pos (set_position (px, py) m) =
     (px + radius m / sqrt 2, py + radius m / sqrt 2) \<and>
   roi_size (set_radius r m) = (2 * r, 2 * r) \<and>
   radius (set_radius r m) = r \<and>
   roi_pos (set_radius r m) = (fst (position m) - r, snd (position m) - r) \<and>
   label_pos (set_radius r m) =
     (fst (position m) + r / sqrt 2, snd (position m) + r / sqrt 2)"
  by (simp add: PoiMarker_init_def set_position_def set_radius_def setSize_def radius_def
      Let_def)

section \<open>Auxiliary facts\<close>

subsection \<open>Connections\<close>

lemma fold_connect: "fold (\<lambda>c. connect (fst c) (snd c)) cs xs = xs @ cs"
  by (induction cs arbitrary: xs) (simp_all add: connect_def)

lemma fold_disconnect: "fold disconnect sgs cs = filter (\<lambda>c. fst c \<notin> set sgs) cs"
proof (induction sgs arbitrary: cs)
  case Nil
  show ?case by simp
next
  case (Cons sg sgs)
  have "filter (\<lambda>c. fst c \<notin> set sgs) (filter (\<lambda>c. fst c \<noteq> sg) cs) =
        filter (\<lambda>c. fst c \<notin> set (sg # sgs)) cs"
    by (induction cs) auto
  with Cons show ?case by (simp add: disconnect_def)
qed

subsection \<open>The dictionary of markers\<close>

lemma update_absent: "k \<notin> fst ` set al \<Longrightarrow> AList.update k v al = al @ [(k, v)]"
  by (induction al) auto

lemma delete_filter: "AList.delete k al = filter (\<lambda>p. fst p \<noteq> k) al"
  by (induction al) auto

lemma map_of_distinct_in: "distinct (map fst al) \<Longrightarrow> (k, v) \<in> set al \<Longrightarrow> map_of al k = Some v"
  by simp

subsection \<open>Removing markers\<close>

lemma remove_markers: "markers (remove_poi_marker name s) = AList.delete name (markers s)"
proof (cases "map_of (markers s) name")
  case None
  then have "name \<notin> fst ` set (markers s)" by (simp add: map_of_eq_None_iff)
  with None show ?thesis by (simp add: remove_poi_marker_def)
next
  case (Some m)
  then show ?thesis by (simp add: remove_poi_marker_def)
qed

lemma remove_next_ident: "next_ident (remove_poi_marker name s) = next_ident s"
  by (simp add: remove_poi_marker_def split: option.splits)

lemma remove_plot_items_subset:
  "set (plot_items (remove_poi_marker name s)) \<subseteq> set (plot_items s)"
  by (auto simp: remove_poi_marker_def delete_from_view_widget_def split: option.splits)

lemma remove_connections_subset:
  "set (connections (remove_poi_marker name s)) \<subseteq> set (connections s)"
  by (auto simp: remove_poi_marker_def disconnect_def split: option.splits)

lemma remove_detaches:
  "map_of (markers s) name = Some m \<Longrightarrow>
   ShapeItem (ident m) \<notin> set (plot_items (remove_poi_marker name s)) \<and>
   LabelItem (ident m) \<notin> set (plot_items (remove_poi_marker name s)) \<and>
   (\<forall>sl. (MarkerPoiSelected (ident m), sl) \<notin> set (connections (remove_poi_marker name s)))"
  by (auto simp: remove_poi_marker_def delete_from_view_widget_def disconnect_def)

lemma fold_remove_markers:
  "markers (fold remove_poi_marker names s) = filter (\<lambda>p. fst p \<notin> set names) (markers s)"
proof (induction names arbitrary: s)
  case Nil
  show ?case by simp
next
  case (Cons n names)
  have "filter (\<lambda>p. fst p \<notin> set names) (filter (\<lambda>p. fst p \<noteq> n) (markers s)) =
        filter (\<lambda>p. fst p \<notin> set (n # names)) (markers s)"
    by (induction "markers s") auto
  with Cons show ?case by (simp add: remove_markers delete_filter)
qed

lemma fold_remove_next_ident: "next_ident (fold remove_poi_marker names s) = next_ident s"
  by (induction names arbitrary: s) (simp_all add: remove_next_ident)

lemma fold_remove_plot_items_subset:
  "set (plot_items (fold remove_poi_marker names s)) \<subseteq> set (plot_items s)"
proof (induction names arbitrary: s)
  case Nil
  show ?case by simp
next
  case (Cons n names)
  from Cons [of "remove_poi_marker n s"] remove_plot_items_subset [of n s]
  show ?case by auto
qed

lemma fold_remove_connections_subset:
  "set (connections (fold remove_poi_marker names s)) \<subseteq> set (connections s)"
proof (induction names arbitrary: s)
  case Nil
  show ?case by simp
next
  case (Cons n names)
  from Cons [of "remove_poi_marker n s"] remove_connections_subset [of n s]
  show ?case by auto
qed

lemma fold_remove_detaches:
  "name \<in> set names \<Longrightarrow> map_of (markers s) name = Some m \<Longrightarrow>
   ShapeItem (ident m) \<notin> set (plot_items (fold remove_poi_marker names s)) \<and>
   LabelItem (ident m) \<notin> set (plot_items (fold remove_poi_marker names s)) \<and>
   (\<forall>sl. (MarkerPoiSelected (ident m), sl) \<notin> set (connections (fold remove_poi_marker names s)))"
proof (induction names arbitrary: s)
  case Nil
  then show ?case by simp
next
  case (Cons n names)
  show ?case
  proof (cases "n = name")
    case True
    from remove_detaches [OF Cons.prems(2)] True
      fold_remove_plot_items_subset [of names "remove_poi_marker n s"]
      fold_remove_connections_subset [of names "remove_poi_marker n s"]
    show ?thesis by auto
  next
    case False
    with Cons.prems have in_rest: "name \<in> set names" by simp
    from False Cons.prems(2)
    have "map_of (markers (remove_poi_marker n s)) name = Some m"
      by (simp add: remove_markers)
    from Cons.IH [OF in_rest this] show ?thesis by simp
  qed
qed

subsection \<open>Adding markers\<close>

lemma ident_init: "ident (PoiMarker_init pos r name i) = i"
  by (simp add: PoiMarker_init_def set_position_def Let_def)

lemma add_poi_marker_new:
  "name \<noteq> [] \<Longrightarrow> name \<notin> fst ` set (markers s) \<Longrightarrow>
   add_poi_marker e name pos s =
     s\<lparr>next_ident := Suc (next_ident s),
       plot_items := plot_items s @ [ShapeItem (next_ident s), LabelItem (next_ident s)],
       connections := connections s @
          [(MarkerPoiSelected (next_ident s), LogicSlot ''set_active_poi'')],
       markers := markers s @
          [(name, PoiMarker_init (xy pos) (logic_optimise_xy_size e / sqrt 2) name
                    (next_ident s))]\<rparr>"
  by (simp add: add_poi_marker_def Let_def ident_init add_to_view_widget_def connect_def
      update_absent)

lemma grown_refl: "grown s s"
  by (simp add: grown_def)

lemma grown_trans:
  assumes "grown s s1" and "grown s1 s2"
  shows "grown s s2"
proof -
  have a: "next_ident s \<le> next_ident s1" "next_ident s1 \<le> next_ident s2"
    using assms by (simp_all add: grown_def)
  have it: "it \<in> set (plot_items s) \<or> next_ident s \<le> item_ident it"
    if "it \<in> set (plot_items s2)" for it
  proof -
    from that assms(2) have "it \<in> set (plot_items s1) \<or> next_ident s1 \<le> item_ident it"
      by (simp add: grown_def)
    then show ?thesis
    proof
      assume "it \<in> set (plot_items s1)"
      with assms(1) show ?thesis by (simp add: grown_def)
    next
      assume "next_ident s1 \<le> item_ident it"
      with a(1) show ?thesis by simp
    qed
  qed
  have cn: "c \<in> set (connections s) \<or>
         (\<exists>i\<ge>next_ident s. c = (MarkerPoiSelected i, LogicSlot ''set_active_poi''))"
    if "c \<in> set (connections s2)" for c
  proof -
    from that assms(2) have "c \<in> set (connections s1) \<or>
         (\<exists>i\<ge>next_ident s1. c = (MarkerPoiSelected i, LogicSlot ''set_active_poi''))"
      by (simp add: grown_def)
    then show ?thesis
    proof
      assume "c \<in> set (connections s1)"
      with assms(1) show ?thesis by (simp add: grown_def)
    next
      assume "\<exists>i\<ge>next_ident s1. c = (MarkerPoiSelected i, LogicSlot ''set_active_poi'')"
      then obtain i where "next_ident s1 \<le> i" "c = (MarkerPoiSelected i, LogicSlot ''set_active_poi'')"
        by blast
      with a(1) have "next_ident s \<le> i \<and> c = (MarkerPoiSelected i, LogicSlot ''set_active_poi'')"
        by simp
      then show ?thesis by blast
    qed
  qed
  have sub: "set (plot_items s) \<subseteq> set (plot_items s2)" "set (connections s) \<subseteq> set (connections s2)"
    using assms unfolding grown_def by blast+
  have eqs: "active_poi_ComboBox s2 = active_poi_ComboBox s"
     "poi_selector_active s2 = poi_selector_active s"
    using assms by (simp_all add: grown_def)
  show ?thesis
    unfolding grown_def using a sub it cn eqs by (intro conjI ballI) simp_all
qed

lemma created_mono:
  assumes "created e d s1 s2 p" and "next_ident s \<le> next_ident s1" and "grown s2 s3"
  shows "created e d s s3 p"
proof -
  from assms(3) have sub: "set (plot_items s2) \<subseteq> set (plot_items s3)"
    "set (connections s2) \<subseteq> set (connections s3)" "next_ident s2 \<le> next_ident s3"
    by (simp_all add: grown_def)
  from assms(1) have c:
    "snd p = PoiMarker_init (xy (the (map_of d (fst p))))
               (logic_optimise_xy_size e / sqrt 2) (fst p) (ident (snd p))"
    "next_ident s1 \<le> ident (snd p)" "ident (snd p) < next_ident s2"
    "ShapeItem (ident (snd p)) \<in> set (plot_items s2)"
    "LabelItem (ident (snd p)) \<in> set (plot_items s2)"
    "(MarkerPoiSelected (ident (snd p)), LogicSlot ''set_active_poi'') \<in> set (connections s2)"
    by (simp_all add: created_def)
  have "next_ident s \<le> ident (snd p)" using c(2) assms(2) by simp
  moreover have "ident (snd p) < next_ident s3" using c(3) sub(3) by simp
  moreover have "ShapeItem (ident (snd p)) \<in> set (plot_items s3)" using c(4) sub(1) by blast
  moreover have "LabelItem (ident (snd p)) \<in> set (plot_items s3)" using c(5) sub(1) by blast
  moreover have "(MarkerPoiSelected (ident (snd p)), LogicSlot ''set_active_poi'')
      \<in> set (connections s3)" using c(6) sub(2) by blast
  ultimately show ?thesis using c(1) unfolding created_def by (intro conjI)
qed

lemma grown_add_new:
  assumes "name \<noteq> []" and "name \<notin> fst ` set (markers s)"
  shows "grown s (add_poi_marker e name pos s)"
  unfolding grown_def add_poi_marker_new [OF assms]
  by (intro conjI ballI) auto

lemma created_add_new:
  "name \<noteq> [] \<Longrightarrow> name \<notin> fst ` set (markers s) \<Longrightarrow> map_of d name = Some pos \<Longrightarrow>
   created e d s (add_poi_marker e name pos s)
     (name, PoiMarker_init (xy pos) (logic_optimise_xy_size e / sqrt 2) name (next_ident s))"
  by (simp add: add_poi_marker_new created_def ident_init)

text \<open>
  What a run of \<open>add_new_markers\<close> over distinct, non-empty, absent names yields: the
  dictionary grows by one entry per name, in order, and each new marker is a new object at
  the position the mapping reports, attached to the plot and connected.
\<close>

lemma add_new_markers_spec:
  assumes "distinct names"
    and "\<forall>n\<in>set names. n \<noteq> [] \<and> n \<notin> fst ` set (markers s) \<and> map_of poi_dict n \<noteq> None"
  shows "\<exists>s' new. add_new_markers e poi_dict names s = Inr s' \<and>
      markers s' = markers s @ new \<and> map fst new = names \<and>
      (\<forall>p\<in>set new. created e poi_dict s s' p) \<and> grown s s'"
  using assms
proof (induction names arbitrary: s)
  case Nil
  then show ?case by (simp add: grown_refl)
next
  case (Cons n names)
  from Cons.prems obtain pos where pos: "map_of poi_dict n = Some pos" by auto
  define m0 where "m0 = PoiMarker_init (xy pos) (logic_optimise_xy_size e / sqrt 2) n (next_ident s)"
  define sa where "sa = add_poi_marker e n pos s"
  from Cons.prems have n: "n \<noteq> []" "n \<notin> fst ` set (markers s)" by auto
  have sa_markers: "markers sa = markers s @ [(n, m0)]"
    unfolding sa_def m0_def by (simp add: add_poi_marker_new [OF n])
  have g0: "grown s sa" unfolding sa_def by (rule grown_add_new [OF n])
  have c0: "created e poi_dict s sa (n, m0)"
    unfolding sa_def m0_def by (rule created_add_new [OF n pos])
  have d: "distinct names" using Cons.prems(1) by simp
  have pre: "\<forall>k\<in>set names. k \<noteq> [] \<and> k \<notin> fst ` set (markers sa) \<and> map_of poi_dict k \<noteq> None"
    using Cons.prems by (auto simp: sa_markers)
  from Cons.IH [OF d pre] obtain s' new where
    run: "add_new_markers e poi_dict names sa = Inr s'" and
    mk: "markers s' = markers sa @ new" and keys: "map fst new = names" and
    each: "\<forall>p\<in>set new. created e poi_dict sa s' p" and
    g1: "grown sa s'"
    by blast
  have run': "add_new_markers e poi_dict (n # names) s = Inr s'"
    using run pos by (simp add: sa_def)
  have mk': "markers s' = markers s @ ((n, m0) # new)" using mk by (simp add: sa_markers)
  have keys': "map fst ((n, m0) # new) = n # names" using keys by simp
  have le: "next_ident s \<le> next_ident sa" using g0 by (simp add: grown_def)
  have each': "\<forall>p\<in>set ((n, m0) # new). created e poi_dict s s' p"
  proof
    fix p assume "p \<in> set ((n, m0) # new)"
    then consider "p = (n, m0)" | "p \<in> set new" by auto
    then show "created e poi_dict s s' p"
    proof cases
      case 1
      have "created e poi_dict s s' (n, m0)" by (rule created_mono [OF c0 order_refl g1])
      with 1 show ?thesis by simp
    next
      case 2
      with each have "created e poi_dict sa s' p" by blast
      from created_mono [OF this le grown_refl] show ?thesis .
    qed
  qed
  have g': "grown s s'" by (rule grown_trans [OF g0 g1])
  from run' mk' keys' each' g'
  have "add_new_markers e poi_dict (n # names) s = Inr s' \<and>
      markers s' = markers s @ ((n, m0) # new) \<and> map fst ((n, m0) # new) = n # names \<and>
      (\<forall>p\<in>set ((n, m0) # new). created e poi_dict s s' p) \<and> grown s s'"
    by (intro conjI)
  then show ?case by (intro exI)
qed

subsection \<open>Repositioning the remaining markers\<close>

lemma reposition_markers_ok:
  "\<forall>p\<in>set ms. map_of poi_dict (fst p) \<noteq> None \<Longrightarrow>
   reposition_markers sz poi_dict ms =
     Inr (map (\<lambda>p. (fst p, set_position (xy (the (map_of poi_dict (fst p))))
                              (setSize (sz, sz) (snd p)))) ms)"
  by (induction ms) auto

subsection \<open>Showing the active POI\<close>

lemma map_of_filter_keys:
  "map_of (filter (\<lambda>p. fst p \<in> A) al) k = (if k \<in> A then map_of al k else None)"
  by (induction al) auto

lemma map_of_map_values:
  "map_of al k = Some v \<Longrightarrow> map_of (map (\<lambda>p. (fst p, g p)) al) k \<noteq> None"
  by (induction al) (auto split: if_splits)

lemma map_of_map_values_distinct:
  "distinct (map fst al) \<Longrightarrow> map_of al k = Some v \<Longrightarrow>
   map_of (map (\<lambda>p. (fst p, g p)) al) k = Some (g (k, v))"
proof (induction al)
  case Nil
  then show ?case by simp
next
  case (Cons p al)
  show ?case
  proof (cases "fst p = k")
    case True
    with Cons.prems(2) have "p = (k, v)" by (cases p) simp
    then show ?thesis by simp
  next
    case False
    with Cons show ?thesis by simp
  qed
qed

lemma select_fields:
  "ident (select m) = ident m" "position (select m) = position m"
  "roi_size (select m) = roi_size m" "roi_pos (select m) = roi_pos m"
  "poi_name (select m) = poi_name m" "radius (select m) = radius m"
  "label_pos (select m) = label_pos m" "selected (select m)"
  by (simp_all add: select_def radius_def)

lemma reposition_fields:
  "ident (set_position p (setSize (z, z) m)) = ident m"
  "position (set_position p (setSize (z, z) m)) = p"
  "roi_size (set_position p (setSize (z, z) m)) = (z, z)"
  "roi_pos (set_position p (setSize (z, z) m)) = (fst p - z / 2, snd p - z / 2)"
  "label_pos (set_position p (setSize (z, z) m)) =
     (fst p + z / 2 / sqrt 2, snd p + z / 2 / sqrt 2)"
  by (simp_all add: set_position_def setSize_def radius_def Let_def)

lemma init_fields:
  "position (PoiMarker_init p r name i) = p"
  "poi_name (PoiMarker_init p r name i) = name"
  "radius (PoiMarker_init p r name i) = r"
  "\<not> selected (PoiMarker_init p r name i)"
  by (simp_all add: PoiMarker_init_def set_position_def radius_def Let_def)

lemma show_active_poi_ok:
  assumes "\<And>a. logic_active_poi e = Some a \<Longrightarrow> a \<in> set poi_names \<Longrightarrow>
             a \<in> fst ` set (markers s) \<and> a \<in> fst ` set poi_dict"
  shows "\<exists>s'. show_active_poi e poi_dict poi_names s = Inr s' \<and>
      plot_items s' = plot_items s \<and> connections s' = connections s \<and>
      next_ident s' = next_ident s \<and> poi_selector_active s' = poi_selector_active s \<and>
      map fst (markers s') = map fst (markers s) \<and>
      (\<forall>n m. map_of (markers s) n = Some m \<longrightarrow>
          map_of (markers s') n = Some m \<or> map_of (markers s') n = Some (select m))"
proof (cases "logic_active_poi e")
  case None
  then show ?thesis by (simp add: show_active_poi_def)
next
  case (Some a)
  show ?thesis
  proof (cases "a \<in> set poi_names")
    case False
    with Some show ?thesis by (simp add: show_active_poi_def)
  next
    case True
    from assms [OF Some True] have k: "a \<in> fst ` set (markers s)" "a \<in> fst ` set poi_dict"
      by simp_all
    from k(1) obtain marker where mk: "map_of (markers s) a = Some marker"
      using map_of_eq_None_iff [of "markers s" a] by (cases "map_of (markers s) a") auto
    from k(2) obtain pos where pos: "map_of poi_dict a = Some pos"
      using map_of_eq_None_iff [of poi_dict a] by (cases "map_of poi_dict a") auto
    have keys: "map fst (AList.update a (select marker) (markers s)) = map fst (markers s)"
      using k(1) by (simp add: update_keys)
    have each: "map_of (AList.update a (select marker) (markers s)) n = Some m \<or>
                map_of (AList.update a (select marker) (markers s)) n = Some (select m)"
      if "map_of (markers s) n = Some m" for n m
      using that mk by (cases "n = a") (simp_all add: update_conv')
    from Some True mk pos keys each show ?thesis
      by (simp add: show_active_poi_def)
  qed
qed

subsection \<open>The stages of the reconciliation\<close>

lemma update_pois_stages:
  assumes dk: "distinct (map fst (markers s))"
    and ns: "set (natural_sort e (map fst poi_dict)) = fst ` set poi_dict"
    and ne: "[] \<notin> fst ` set poi_dict"
  shows "\<exists>s3 new.
      update_pois e poi_dict s =
        show_active_poi e poi_dict (natural_sort e (map fst poi_dict)) s3 \<and>
      markers s3 =
        map (\<lambda>p. (fst p, set_position (xy (the (map_of poi_dict (fst p))))
                            (setSize (logic_optimise_xy_size e * sqrt 2,
                                      logic_optimise_xy_size e * sqrt 2) (snd p))))
          (filter (\<lambda>p. fst p \<in> fst ` set poi_dict) (markers s)) @ new \<and>
      distinct (map fst new) \<and>
      set (map fst new) = fst ` set poi_dict - fst ` set (markers s) \<and>
      (\<forall>p\<in>set new. created e poi_dict s s3 p) \<and>
      (\<forall>name m. map_of (markers s) name = Some m \<and> name \<notin> fst ` set poi_dict \<and>
          ident m < next_ident s \<longrightarrow>
          ShapeItem (ident m) \<notin> set (plot_items s3) \<and>
          LabelItem (ident m) \<notin> set (plot_items s3) \<and>
          (\<forall>sl. (MarkerPoiSelected (ident m), sl) \<notin> set (connections s3)))"
proof -
  let ?K = "fst ` set poi_dict"
  let ?names = "natural_sort e (map fst poi_dict)"
  let ?s1 = "s\<lparr>active_poi_ComboBox := addItems ?names (clear (active_poi_ComboBox s))\<rparr>"
  let ?old = "map fst (markers ?s1)"
  let ?del = "filter (\<lambda>n. n \<notin> set ?names) ?old"
  let ?add = "remdups (filter (\<lambda>n. n \<notin> set ?old) ?names)"
  let ?s2 = "fold remove_poi_marker ?del ?s1"
  let ?sz = "logic_optimise_xy_size e * sqrt 2"
  let ?f = "\<lambda>p. (fst p, set_position (xy (the (map_of poi_dict (fst p))))
                            (setSize (?sz, ?sz) (snd p)))"
  let ?rep = "map ?f (markers ?s2)"
  let ?s2r = "?s2\<lparr>markers := ?rep\<rparr>"
  have old: "?old = map fst (markers s)" by simp
  have m2: "markers ?s2 = filter (\<lambda>p. fst p \<in> ?K) (markers s)"
  proof -
    have "markers ?s2 = filter (\<lambda>p. fst p \<notin> set ?del) (markers s)"
      by (simp add: fold_remove_markers)
    also have "\<dots> = filter (\<lambda>p. fst p \<in> ?K) (markers s)"
      by (rule filter_cong) (auto simp: ns)
    finally show ?thesis .
  qed
  have in_dict: "\<forall>p\<in>set (markers ?s2). map_of poi_dict (fst p) \<noteq> None"
    unfolding m2 by (auto simp: map_of_eq_None_iff)
  have rep_eq: "reposition_markers ?sz poi_dict (markers ?s2) = Inr ?rep"
    by (rule reposition_markers_ok [OF in_dict])
  have keys_rep: "fst ` set ?rep \<subseteq> fst ` set (markers s)"
    unfolding m2 by force
  have d_add: "distinct ?add" by simp
  have pre: "\<forall>n\<in>set ?add. n \<noteq> [] \<and> n \<notin> fst ` set (markers ?s2r) \<and> map_of poi_dict n \<noteq> None"
  proof
    fix n assume "n \<in> set ?add"
    then have n: "n \<in> ?K" "n \<notin> fst ` set (markers s)" by (auto simp: ns)
    from n(1) ne have "n \<noteq> []" by metis
    moreover from n(2) keys_rep have "n \<notin> fst ` set (markers ?s2r)" by auto
    moreover from n(1) have "map_of poi_dict n \<noteq> None" by (simp add: map_of_eq_None_iff)
    ultimately show "n \<noteq> [] \<and> n \<notin> fst ` set (markers ?s2r) \<and> map_of poi_dict n \<noteq> None"
      by blast
  qed
  from add_new_markers_spec [OF d_add pre, of e] obtain s3 new where
    add_eq: "add_new_markers e poi_dict ?add ?s2r = Inr s3" and
    mk: "markers s3 = markers ?s2r @ new" and keys: "map fst new = ?add" and
    each: "\<forall>p\<in>set new. created e poi_dict ?s2r s3 p" and
    g: "grown ?s2r s3"
    by blast
  have run: "update_pois e poi_dict s = show_active_poi e poi_dict ?names s3"
    by (simp only: update_pois_def Let_def rep_eq sum.case add_eq)
  have mk': "markers s3 = map ?f (filter (\<lambda>p. fst p \<in> ?K) (markers s)) @ new"
    using mk m2 by simp
  have dn: "distinct (map fst new)" using keys by simp
  have kn: "set (map fst new) = ?K - fst ` set (markers s)"
    unfolding keys by (auto simp: ns)
  have ni: "next_ident ?s2r = next_ident s" by (simp add: fold_remove_next_ident)
  have each': "\<forall>p\<in>set new. created e poi_dict s s3 p"
    using each ni unfolding created_def by simp
  have det: "ShapeItem (ident m) \<notin> set (plot_items s3) \<and>
          LabelItem (ident m) \<notin> set (plot_items s3) \<and>
          (\<forall>sl. (MarkerPoiSelected (ident m), sl) \<notin> set (connections s3))"
    if m: "map_of (markers s) name = Some m" and out: "name \<notin> ?K"
      and old_obj: "ident m < next_ident s" for name m
  proof -
    from m have "(name, m) \<in> set (markers s)" by (rule map_of_SomeD)
    then have "name \<in> fst ` set (markers s)" by force
    with out have in_del: "name \<in> set ?del" by (simp add: ns)
    have m1: "map_of (markers ?s1) name = Some m" using m by simp
    from fold_remove_detaches [OF in_del m1]
    have gone: "ShapeItem (ident m) \<notin> set (plot_items ?s2r)"
      "LabelItem (ident m) \<notin> set (plot_items ?s2r)"
      "\<And>sl. (MarkerPoiSelected (ident m), sl) \<notin> set (connections ?s2r)"
      by simp_all
    from g have it: "\<And>it. it \<in> set (plot_items s3) \<Longrightarrow>
        it \<in> set (plot_items ?s2r) \<or> next_ident ?s2r \<le> item_ident it"
      and cn: "\<And>c. c \<in> set (connections s3) \<Longrightarrow> c \<in> set (connections ?s2r) \<or>
         (\<exists>i\<ge>next_ident ?s2r. c = (MarkerPoiSelected i, LogicSlot ''set_active_poi''))"
      unfolding grown_def by blast+
    have a: "ShapeItem (ident m) \<notin> set (plot_items s3)"
    proof
      assume "ShapeItem (ident m) \<in> set (plot_items s3)"
      from it [OF this] gone(1) have "next_ident ?s2r \<le> item_ident (ShapeItem (ident m))"
        by blast
      with old_obj ni show False by simp
    qed
    have b: "LabelItem (ident m) \<notin> set (plot_items s3)"
    proof
      assume "LabelItem (ident m) \<in> set (plot_items s3)"
      from it [OF this] gone(2) have "next_ident ?s2r \<le> item_ident (LabelItem (ident m))"
        by blast
      with old_obj ni show False by simp
    qed
    have c: "(MarkerPoiSelected (ident m), sl) \<notin> set (connections s3)" for sl
    proof
      assume "(MarkerPoiSelected (ident m), sl) \<in> set (connections s3)"
      from cn [OF this] gone(3) [of sl]
      obtain i where "next_ident ?s2r \<le> i"
        "(MarkerPoiSelected (ident m), sl) = (MarkerPoiSelected i, LogicSlot ''set_active_poi'')"
        by blast
      with old_obj ni show False by simp
    qed
    from a b c show ?thesis by blast
  qed
  from run mk' dn kn each' det show ?thesis by blast
qed

section \<open>Reconciliation\<close>

text \<open>
  A POI has a name, and a name is not empty: the name fields accept no empty name, and
  throughout the orchestrator the empty text stands for the absence of a POI.
\<close>

lemma validated_name_not_empty:
  "fst (validate False name cursor) = Acceptable \<Longrightarrow> name \<noteq> []"
  by (auto simp: validate_def)

text \<open>
  C4. For every marker dictionary and every backend mapping of POI names to positions,
  \<^verbatim>\<open>_update_pois\<close> returns, and afterwards the names of the dictionary are exactly the
  names of the mapping. A marker whose name disappeared is neither in the plot (shape and
  label) nor connected any more. A marker whose name persists is the same object, resized
  and moved to the reported position, shape and label. A name that is new has a marker
  object created by this call, at the reported position, in the plot and connected. The
  premises say what the words of the claim stand for: the state holds a dictionary (no
  name twice) whose marker objects were created before the call, the names of the mapping
  are POI names, so none is empty, and \<^verbatim>\<open>natural_sort\<close> returns the names it was given.
\<close>

theorem update_pois_reconciles:
  assumes dk: "distinct (map fst (markers s))"
    and ids: "\<forall>p\<in>set (markers s). ident (snd p) < next_ident s"
    and ns: "set (natural_sort e (map fst poi_dict)) = fst ` set poi_dict"
    and ne: "[] \<notin> fst ` set poi_dict"
  shows "\<exists>s'. update_pois e poi_dict s = Inr s' \<and>
      fst ` set (markers s') = fst ` set poi_dict \<and>
      distinct (map fst (markers s')) \<and>
      (\<forall>name m. map_of (markers s) name = Some m \<and> name \<notin> fst ` set poi_dict \<longrightarrow>
          ShapeItem (ident m) \<notin> set (plot_items s') \<and>
          LabelItem (ident m) \<notin> set (plot_items s') \<and>
          (\<forall>sl. (MarkerPoiSelected (ident m), sl) \<notin> set (connections s'))) \<and>
      (\<forall>name m pos. map_of (markers s) name = Some m \<and> map_of poi_dict name = Some pos \<longrightarrow>
          (\<exists>m'. map_of (markers s') name = Some m' \<and> ident m' = ident m \<and>
                position m' = xy pos \<and>
                roi_size m' = (logic_optimise_xy_size e * sqrt 2,
                               logic_optimise_xy_size e * sqrt 2) \<and>
                roi_pos m' = (fst (xy pos) - logic_optimise_xy_size e * sqrt 2 / 2,
                              snd (xy pos) - logic_optimise_xy_size e * sqrt 2 / 2) \<and>
                label_pos m' =
                  (fst (xy pos) + logic_optimise_xy_size e * sqrt 2 / 2 / sqrt 2,
                   snd (xy pos) + logic_optimise_xy_size e * sqrt 2 / 2 / sqrt 2))) \<and>
      (\<forall>name pos. map_of (markers s) name = None \<and> map_of poi_dict name = Some pos \<longrightarrow>
          (\<exists>m'. map_of (markers s') name = Some m' \<and> next_ident s \<le> ident m' \<and>
                poi_name m' = name \<and> position m' = xy pos \<and>
                radius m' = logic_optimise_xy_size e / sqrt 2 \<and>
                ShapeItem (ident m') \<in> set (plot_items s') \<and>
                LabelItem (ident m') \<in> set (plot_items s') \<and>
                (MarkerPoiSelected (ident m'), LogicSlot ''set_active_poi'')
                   \<in> set (connections s')))"
proof -
  let ?K = "fst ` set poi_dict"
  let ?names = "natural_sort e (map fst poi_dict)"
  let ?sz = "logic_optimise_xy_size e * sqrt 2"
  let ?g = "\<lambda>p. set_position (xy (the (map_of poi_dict (fst p)))) (setSize (?sz, ?sz) (snd p))"
  let ?kept = "filter (\<lambda>p. fst p \<in> ?K) (markers s)"
  let ?rep = "map (\<lambda>p. (fst p, ?g p)) ?kept"
  from update_pois_stages [OF dk ns ne] obtain s3 new where
    run: "update_pois e poi_dict s = show_active_poi e poi_dict ?names s3" and
    mk: "markers s3 = ?rep @ new" and
    dn: "distinct (map fst new)" and
    kn: "set (map fst new) = ?K - fst ` set (markers s)" and
    each: "\<forall>p\<in>set new. created e poi_dict s s3 p" and
    det: "\<forall>name m. map_of (markers s) name = Some m \<and> name \<notin> ?K \<and>
          ident m < next_ident s \<longrightarrow>
          ShapeItem (ident m) \<notin> set (plot_items s3) \<and>
          LabelItem (ident m) \<notin> set (plot_items s3) \<and>
          (\<forall>sl. (MarkerPoiSelected (ident m), sl) \<notin> set (connections s3))"
    by blast
  have keys_rep: "map fst ?rep = map fst ?kept" by simp
  have keys3: "map fst (markers s3) = map fst ?kept @ map fst new"
    unfolding mk by simp
  have set_kept: "set (map fst ?kept) = ?K \<inter> fst ` set (markers s)" by force
  have set3: "fst ` set (markers s3) = ?K"
  proof -
    have "fst ` set (markers s3) = set (map fst (markers s3))" by simp
    also have "\<dots> = set (map fst ?kept) \<union> set (map fst new)" unfolding keys3 by simp
    also have "\<dots> = ?K" unfolding set_kept kn by blast
    finally show ?thesis .
  qed
  have d_kept: "distinct (map fst ?kept)" using dk by (rule distinct_map_filter)
  have d3: "distinct (map fst (markers s3))"
    unfolding keys3 using d_kept dn set_kept kn by (simp only: distinct_append) blast
  have act: "a \<in> fst ` set (markers s3) \<and> a \<in> ?K"
    if "logic_active_poi e = Some a" "a \<in> set ?names" for a
    using that(2) by (simp only: set3 ns)
  from show_active_poi_ok [of e ?names s3 poi_dict, OF act] obtain s' where
    fin: "show_active_poi e poi_dict ?names s3 = Inr s'" and
    pi: "plot_items s' = plot_items s3" and cn: "connections s' = connections s3" and
    keys': "map fst (markers s') = map fst (markers s3)" and
    sel: "\<forall>n m. map_of (markers s3) n = Some m \<longrightarrow>
          map_of (markers s') n = Some m \<or> map_of (markers s') n = Some (select m)"
    by blast
  have c1: "update_pois e poi_dict s = Inr s'" using run fin by simp
  have c2: "fst ` set (markers s') = ?K"
  proof -
    have "fst ` set (markers s') = set (map fst (markers s'))" by simp
    also have "\<dots> = set (map fst (markers s3))" by (simp only: keys')
    also have "\<dots> = ?K" using set3 by simp
    finally show ?thesis .
  qed
  have c3: "distinct (map fst (markers s'))" using d3 by (simp only: keys')
  have c4: "ShapeItem (ident m) \<notin> set (plot_items s') \<and>
          LabelItem (ident m) \<notin> set (plot_items s') \<and>
          (\<forall>sl. (MarkerPoiSelected (ident m), sl) \<notin> set (connections s'))"
    if "map_of (markers s) name = Some m \<and> name \<notin> ?K" for name m
  proof -
    from that have "(name, m) \<in> set (markers s)" by (auto dest: map_of_SomeD)
    with ids have "ident m < next_ident s" by force
    with that det show ?thesis unfolding pi cn by blast
  qed
  have c5: "\<exists>m'. map_of (markers s') name = Some m' \<and> ident m' = ident m \<and>
                position m' = xy pos \<and> roi_size m' = (?sz, ?sz) \<and>
                roi_pos m' = (fst (xy pos) - ?sz / 2, snd (xy pos) - ?sz / 2) \<and>
                label_pos m' =
                  (fst (xy pos) + ?sz / 2 / sqrt 2, snd (xy pos) + ?sz / 2 / sqrt 2)"
    if "map_of (markers s) name = Some m \<and> map_of poi_dict name = Some pos" for name m pos
  proof -
    from that have m: "map_of (markers s) name = Some m" and pos: "map_of poi_dict name = Some pos"
      by simp_all
    from pos have "(name, pos) \<in> set poi_dict" by (rule map_of_SomeD)
    then have inK: "name \<in> ?K" by force
    have "map_of ?kept name = Some m" using m inK by (simp only: map_of_filter_keys if_True)
    from map_of_map_values_distinct [OF d_kept this, of ?g]
    have "map_of ?rep name = Some (?g (name, m))" .
    then have "map_of (markers s3) name = Some (?g (name, m))"
      unfolding mk by (simp add: map_of_append)
    with sel have "map_of (markers s') name = Some (?g (name, m)) \<or>
        map_of (markers s') name = Some (select (?g (name, m)))" by blast
    then show ?thesis
      using pos by (auto simp: reposition_fields select_fields)
  qed
  have c6: "\<exists>m'. map_of (markers s') name = Some m' \<and> next_ident s \<le> ident m' \<and>
                poi_name m' = name \<and> position m' = xy pos \<and>
                radius m' = logic_optimise_xy_size e / sqrt 2 \<and>
                ShapeItem (ident m') \<in> set (plot_items s') \<and>
                LabelItem (ident m') \<in> set (plot_items s') \<and>
                (MarkerPoiSelected (ident m'), LogicSlot ''set_active_poi'')
                   \<in> set (connections s')"
    if "map_of (markers s) name = None \<and> map_of poi_dict name = Some pos" for name pos
  proof -
    from that have m: "map_of (markers s) name = None" and pos: "map_of poi_dict name = Some pos"
      by simp_all
    from pos have "(name, pos) \<in> set poi_dict" by (rule map_of_SomeD)
    then have inK: "name \<in> ?K" by force
    from m have "name \<notin> fst ` set (markers s)" by (simp add: map_of_eq_None_iff)
    with inK kn have "name \<in> set (map fst new)" by blast
    then obtain m3 where in_new: "(name, m3) \<in> set new" by auto
    then have "(name, m3) \<in> set (markers s3)" unfolding mk by simp
    from map_of_distinct_in [OF d3 this] have m3: "map_of (markers s3) name = Some m3" .
    from each in_new have cr: "created e poi_dict s s3 (name, m3)" by blast
    then have init: "m3 = PoiMarker_init (xy pos) (logic_optimise_xy_size e / sqrt 2) name (ident m3)"
      unfolding created_def using pos by simp
    then obtain i where init': "m3 = PoiMarker_init (xy pos) (logic_optimise_xy_size e / sqrt 2) name i"
      by blast
    have f3: "poi_name m3 = name" "position m3 = xy pos"
      "radius m3 = logic_optimise_xy_size e / sqrt 2"
      unfolding init' by (simp_all add: init_fields)
    from cr have i3: "next_ident s \<le> ident m3"
      "ShapeItem (ident m3) \<in> set (plot_items s3)"
      "LabelItem (ident m3) \<in> set (plot_items s3)"
      "(MarkerPoiSelected (ident m3), LogicSlot ''set_active_poi'') \<in> set (connections s3)"
      unfolding created_def by simp_all
    from sel m3 have "map_of (markers s') name = Some m3 \<or>
        map_of (markers s') name = Some (select m3)" by blast
    then show ?thesis
    proof
      assume "map_of (markers s') name = Some m3"
      with f3 i3 show ?thesis unfolding pi cn by blast
    next
      assume a: "map_of (markers s') name = Some (select m3)"
      have "next_ident s \<le> ident (select m3) \<and>
                poi_name (select m3) = name \<and> position (select m3) = xy pos \<and>
                radius (select m3) = logic_optimise_xy_size e / sqrt 2 \<and>
                ShapeItem (ident (select m3)) \<in> set (plot_items s') \<and>
                LabelItem (ident (select m3)) \<in> set (plot_items s') \<and>
                (MarkerPoiSelected (ident (select m3)), LogicSlot ''set_active_poi'')
                   \<in> set (connections s')"
        using f3 i3 unfolding pi cn by (simp add: select_fields)
      with a show ?thesis by blast
    qed
  qed
  from c1 c2 c3 c4 c5 c6 show ?thesis by blast
qed

subsection \<open>The example states\<close>

lemma sort_AB: "sort [''A'', ''B''] = [''A'', ''B'']"
  by code_simp

lemmas marker_defs = PoiMarker_init_def set_position_def setSize_def radius_def select_def
  deselect_def set_radius_def set_name_def default_pen_def select_pen_def

lemmas combo_defs = clear_def addItems_def setCurrentText_def setCurrentIndex_def
  currentText_def

lemmas pois_defs = update_pois_def show_active_poi_def add_poi_marker_def
  remove_poi_marker_def add_to_view_widget_def delete_from_view_widget_def connect_def
  disconnect_def xy_def

lemma update_pois_AB:
  "update_pois (backend (Some ''A'') pois_AB) pois_AB init_gui = Inr gui_AB"
  by (simp add: backend_def pois_AB_def init_gui_def gui_AB_def sort_AB pois_defs marker_defs
      combo_defs Let_def)

theorem update_pois_reconciles_witness:
  "distinct (map fst (markers gui_AB)) \<and>
   list_all (\<lambda>p. ident (snd p) < next_ident gui_AB) (markers gui_AB) \<and>
   set (natural_sort (backend (Some ''B'') pois_BC) (map fst pois_BC)) = fst ` set pois_BC \<and>
   [] \<notin> fst ` set pois_BC \<and>
   (\<exists>s'. update_pois (backend (Some ''B'') pois_BC) pois_BC gui_AB = Inr s' \<and>
         fst ` set (markers s') = {''B'', ''C''} \<and>
         ShapeItem 0 \<notin> set (plot_items s') \<and>
         (\<exists>m'. map_of (markers s') ''B'' = Some m' \<and> ident m' = 1 \<and> position m' = (7, 8)) \<and>
         (\<exists>m'. map_of (markers s') ''C'' = Some m' \<and> 2 \<le> ident m' \<and> position m' = (1, 1)))"
proof -
  have h1: "distinct (map fst (markers gui_AB))"
    by (simp add: gui_AB_def init_gui_def)
  have h2: "\<forall>p\<in>set (markers gui_AB). ident (snd p) < next_ident gui_AB"
    by (simp add: gui_AB_def init_gui_def ident_init select_fields)
  have h3: "set (natural_sort (backend (Some ''B'') pois_BC) (map fst pois_BC)) =
      fst ` set pois_BC"
    by (simp add: backend_def)
  have h4: "[] \<notin> fst ` set pois_BC"
    by (simp add: pois_BC_def)
  have A: "map_of (markers gui_AB) ''A'' = Some (select (PoiMarker_init (1, 2) (2 / sqrt 2) ''A'' 0))"
    and B: "map_of (markers gui_AB) ''B'' = Some (PoiMarker_init (4, 5) (2 / sqrt 2) ''B'' 1)"
    and C: "map_of (markers gui_AB) ''C'' = None"
    by (simp_all add: gui_AB_def init_gui_def)
  have dA: "''A'' \<notin> fst ` set pois_BC" and dB: "map_of pois_BC ''B'' = Some (7, 8, 9)"
    and dC: "map_of pois_BC ''C'' = Some (1, 1, 1)" and K: "fst ` set pois_BC = {''B'', ''C''}"
    by (simp_all add: pois_BC_def)
  from update_pois_reconciles [OF h1 h2 h3 h4] obtain s' where
    run: "update_pois (backend (Some ''B'') pois_BC) pois_BC gui_AB = Inr s'" and
    keys: "fst ` set (markers s') = fst ` set pois_BC" and
    gone: "\<forall>name m. map_of (markers gui_AB) name = Some m \<and> name \<notin> fst ` set pois_BC \<longrightarrow>
          ShapeItem (ident m) \<notin> set (plot_items s') \<and>
          LabelItem (ident m) \<notin> set (plot_items s') \<and>
          (\<forall>sl. (MarkerPoiSelected (ident m), sl) \<notin> set (connections s'))" and
    kept: "\<forall>name m pos. map_of (markers gui_AB) name = Some m \<and> map_of pois_BC name = Some pos \<longrightarrow>
          (\<exists>m'. map_of (markers s') name = Some m' \<and> ident m' = ident m \<and>
                position m' = xy pos \<and>
                roi_size m' = (logic_optimise_xy_size (backend (Some ''B'') pois_BC) * sqrt 2,
                               logic_optimise_xy_size (backend (Some ''B'') pois_BC) * sqrt 2) \<and>
                roi_pos m' =
                  (fst (xy pos) - logic_optimise_xy_size (backend (Some ''B'') pois_BC) * sqrt 2 / 2,
                   snd (xy pos) - logic_optimise_xy_size (backend (Some ''B'') pois_BC) * sqrt 2 / 2) \<and>
                label_pos m' =
                  (fst (xy pos) +
                     logic_optimise_xy_size (backend (Some ''B'') pois_BC) * sqrt 2 / 2 / sqrt 2,
                   snd (xy pos) +
                     logic_optimise_xy_size (backend (Some ''B'') pois_BC) * sqrt 2 / 2 / sqrt 2))" and
    new: "\<forall>name pos. map_of (markers gui_AB) name = None \<and> map_of pois_BC name = Some pos \<longrightarrow>
          (\<exists>m'. map_of (markers s') name = Some m' \<and> next_ident gui_AB \<le> ident m' \<and>
                poi_name m' = name \<and> position m' = xy pos \<and>
                radius m' = logic_optimise_xy_size (backend (Some ''B'') pois_BC) / sqrt 2 \<and>
                ShapeItem (ident m') \<in> set (plot_items s') \<and>
                LabelItem (ident m') \<in> set (plot_items s') \<and>
                (MarkerPoiSelected (ident m'), LogicSlot ''set_active_poi'')
                   \<in> set (connections s'))"
    by blast
  from gone A dA
  have "ShapeItem (ident (select (PoiMarker_init (1, 2) (2 / sqrt 2) ''A'' 0)))
      \<notin> set (plot_items s')"
    by blast
  then have g: "ShapeItem 0 \<notin> set (plot_items s')"
    by (simp add: ident_init select_fields)
  from kept B dB obtain mb where
    "map_of (markers s') ''B'' = Some mb \<and> ident mb = ident (PoiMarker_init (4, 5) (2 / sqrt 2) ''B'' 1) \<and> position mb = xy (7, 8, 9)"
    by blast
  then have b: "\<exists>m'. map_of (markers s') ''B'' = Some m' \<and> ident m' = 1 \<and> position m' = (7, 8)"
    by (simp add: ident_init xy_def)
  from new C dC obtain mc where
    "map_of (markers s') ''C'' = Some mc \<and> next_ident gui_AB \<le> ident mc \<and> position mc = xy (1, 1, 1)"
    by blast
  then have c: "\<exists>m'. map_of (markers s') ''C'' = Some m' \<and> 2 \<le> ident m' \<and> position m' = (1, 1)"
    by (simp add: gui_AB_def init_gui_def xy_def)
  from h2 have h2': "list_all (\<lambda>p. ident (snd p) < next_ident gui_AB) (markers gui_AB)"
    by (simp add: list_all_iff)
  from h1 h2' h3 h4 run keys K g b c show ?thesis by auto
qed

section \<open>Removing a marker that is not there\<close>

text \<open>
  C10. For every name that is not in the marker dictionary, \<^verbatim>\<open>_remove_poi_marker\<close> returns
  the state it was given: dictionary, plot items, connections and logged messages are
  unchanged, and nothing is raised.
\<close>

theorem remove_absent_marker_noop:
  "name \<notin> fst ` set (markers s) \<Longrightarrow> remove_poi_marker name s = s"
  using map_of_eq_None_iff [of "markers s" name] by (simp add: remove_poi_marker_def)

theorem remove_absent_marker_noop_witness:
  "''C'' \<notin> fst ` set (markers gui_AB) \<and> remove_poi_marker ''C'' gui_AB = gui_AB"
proof -
  have h: "''C'' \<notin> fst ` set (markers gui_AB)"
    by (simp add: gui_AB_def init_gui_def)
  from h remove_absent_marker_noop [OF h] show ?thesis by simp
qed

section \<open>The drift history plot\<close>

lemma np_max_Max: "xs \<noteq> [] \<Longrightarrow> np_max xs = Inr (Max (set xs))"
  by (cases xs) (simp_all add: np_max_def Max.set_eq_fold [symmetric])

text \<open>
  C8. A history whose number of columns is not 4 makes \<^verbatim>\<open>_update_roi_history\<close> log the
  error and return: the result is the state it was given with the message appended to the
  log, so the three shift plots and the axis label are as before. The history is the
  argument, or the backend's history when the argument is missing.
\<close>

theorem history_wrong_width:
  assumes "history = (case history_arg of None \<Rightarrow> logic_roi_pos_history e | Some h \<Rightarrow> h)"
    and "length history \<noteq> 4"
  shows "update_roi_history e history_arg s =
           Inr (s\<lparr>log_error := log_error s @
                    [''ROI history must be an array of type float[][4].'']\<rparr>) \<and>
         (\<forall>s'. update_roi_history e history_arg s = Inr s' \<longrightarrow>
            x_shift_plot s' = x_shift_plot s \<and> y_shift_plot s' = y_shift_plot s \<and>
            z_shift_plot s' = z_shift_plot s \<and> time_units s' = time_units s)"
proof -
  have "update_roi_history e history_arg s =
           Inr (s\<lparr>log_error := log_error s @
                    [''ROI history must be an array of type float[][4].'']\<rparr>)"
    unfolding update_roi_history_def assms(1) [symmetric] Let_def using assms(2) by simp
  then show ?thesis by auto
qed

theorem history_wrong_width_witness:
  "length [[0, 1], [2, 3], [4, 5 :: real]] \<noteq> 4 \<and>
   update_roi_history (backend None []) (Some [[0, 1], [2, 3], [4, 5]]) gui_AB =
     Inr (gui_AB\<lparr>log_error := log_error gui_AB @
                   [''ROI history must be an array of type float[][4].'']\<rparr>)"
  using history_wrong_width [where history = "[[0, 1], [2, 3], [4, 5]]"
      and history_arg = "Some [[0, 1], [2, 3], [4, 5]]" and e = "backend None []"
      and s = gui_AB]
  by simp

text \<open>
  C7, as the code has it. For a history with four columns and at least one row, the
  timestamps are plotted as they are when their maximum is below 300, divided by 60 when
  it is below 7200, divided by 3600 when it is below 172800, and divided by 86400
  otherwise; the axis is labelled with the unit chosen, and the three shifts are plotted
  against these times.
\<close>

theorem time_axis_scaling:
  assumes "history = (case history_arg of None \<Rightarrow> logic_roi_pos_history e | Some h \<Rightarrow> h)"
    and "length history = 4" and "history ! 0 \<noteq> []"
    and "max_time = Max (set (history ! 0))"
    and "time_arr =
      (if max_time < 300 then history ! 0
       else if max_time < 7200 then map (\<lambda>t. t / 60) (history ! 0)
       else if max_time < 172800 then map (\<lambda>t. t / 3600) (history ! 0)
       else map (\<lambda>t. t / 86400) (history ! 0))"
  shows "update_roi_history e history_arg s =
           Inr (s\<lparr>time_units :=
                    (if max_time < 300 then ''s'' else if max_time < 7200 then ''min''
                     else if max_time < 172800 then ''h'' else ''d''),
                  x_shift_plot := (time_arr, history ! 1),
                  y_shift_plot := (time_arr, history ! 2),
                  z_shift_plot := (time_arr, history ! 3)\<rparr>)"
  unfolding update_roi_history_def assms(1) [symmetric] Let_def
  using assms(2,3) by (simp add: np_max_Max assms(4) [symmetric] assms(5))

theorem time_axis_scaling_witness:
  "update_roi_history (backend None []) (Some [[0, 100], [1, 2], [3, 4], [5, 6]]) init_gui =
     Inr (init_gui\<lparr>time_units := ''s'', x_shift_plot := ([0, 100], [1, 2]),
            y_shift_plot := ([0, 100], [3, 4]), z_shift_plot := ([0, 100], [5, 6])\<rparr>) \<and>
   update_roi_history (backend None []) (Some [[0, 1200], [1, 2], [3, 4], [5, 6]]) init_gui =
     Inr (init_gui\<lparr>time_units := ''min'', x_shift_plot := ([0, 20], [1, 2]),
            y_shift_plot := ([0, 20], [3, 4]), z_shift_plot := ([0, 20], [5, 6])\<rparr>) \<and>
   update_roi_history (backend None []) (Some [[0, 7200], [1, 2], [3, 4], [5, 6]]) init_gui =
     Inr (init_gui\<lparr>time_units := ''h'', x_shift_plot := ([0, 2], [1, 2]),
            y_shift_plot := ([0, 2], [3, 4]), z_shift_plot := ([0, 2], [5, 6])\<rparr>) \<and>
   update_roi_history (backend None []) (Some [[0, 172800], [1, 2], [3, 4], [5, 6]]) init_gui =
     Inr (init_gui\<lparr>time_units := ''d'', x_shift_plot := ([0, 2], [1, 2]),
            y_shift_plot := ([0, 2], [3, 4]), z_shift_plot := ([0, 2], [5, 6])\<rparr>)"
  using
    time_axis_scaling [where history = "[[0, 100], [1, 2], [3, 4], [5, 6]]"
      and history_arg = "Some [[0, 100], [1, 2], [3, 4], [5, 6]]" and e = "backend None []"
      and max_time = 100 and time_arr = "[0, 100]" and s = init_gui]
    time_axis_scaling [where history = "[[0, 1200], [1, 2], [3, 4], [5, 6]]"
      and history_arg = "Some [[0, 1200], [1, 2], [3, 4], [5, 6]]" and e = "backend None []"
      and max_time = 1200 and time_arr = "[0, 20]" and s = init_gui]
    time_axis_scaling [where history = "[[0, 7200], [1, 2], [3, 4], [5, 6]]"
      and history_arg = "Some [[0, 7200], [1, 2], [3, 4], [5, 6]]" and e = "backend None []"
      and max_time = 7200 and time_arr = "[0, 2]" and s = init_gui]
    time_axis_scaling [where history = "[[0, 172800], [1, 2], [3, 4], [5, 6]]"
      and history_arg = "Some [[0, 172800], [1, 2], [3, 4], [5, 6]]" and e = "backend None []"
      and max_time = 172800 and time_arr = "[0, 2]" and s = init_gui]
  by simp

text \<open>
  The claim C7 as it is worded fails for a history of four columns without rows: it has no
  maximum timestamp, \<^verbatim>\<open>np.max\<close> raises, and the handler ends with the exception before
  it labels the axis or plots anything.
\<close>

theorem time_axis_no_rows_counterexample:
  "length ([[], [], [], []] :: history) = 4 \<and>
   update_roi_history (backend None []) (Some [[], [], [], []]) init_gui =
     Inl (ValueError ''zero-size array to reduction operation maximum which has no identity'')"
  by (simp add: update_roi_history_def np_max_def)

section \<open>Activation\<close>

text \<open>
  A marker's connection belongs to a marker of the dictionary: the property of a state
  that activation establishes and that lets deactivation find every marker connection.
\<close>

lemma update_roi_history_frame:
  "update_roi_history e h s = Inr s' \<Longrightarrow>
   markers s' = markers s \<and> connections s' = connections s \<and>
   poi_selector_active s' = poi_selector_active s \<and> next_ident s' = next_ident s \<and>
   plot_items s' = plot_items s"
  by (auto simp: update_roi_history_def Let_def split: if_splits sum.splits)

lemma add_poi_marker_owned:
  assumes "fst ` set (connections s) \<subseteq> (\<lambda>p. MarkerPoiSelected (ident (snd p))) ` set (markers s)"
  shows "fst ` set (connections (add_poi_marker e name pos s))
           \<subseteq> (\<lambda>p. MarkerPoiSelected (ident (snd p))) ` set (markers (add_poi_marker e name pos s)) \<and>
         poi_selector_active (add_poi_marker e name pos s) = poi_selector_active s"
proof (cases "name \<noteq> [] \<and> name \<notin> fst ` set (markers s)")
  case True
  then have n: "name \<noteq> []" "name \<notin> fst ` set (markers s)" by simp_all
  show ?thesis
    unfolding add_poi_marker_new [OF n] using assms by (auto simp: ident_init)
next
  case False
  then have "add_poi_marker e name pos s = s \<or>
      add_poi_marker e name pos s =
        s\<lparr>log_error := log_error s @
               [''Unable to add POI marker to ROI image. POI marker already present.'']\<rparr>"
    by (auto simp: add_poi_marker_def)
  then show ?thesis using assms by (elim disjE) simp_all
qed

lemma add_new_markers_owned:
  "add_new_markers e poi_dict names s = Inr s' \<Longrightarrow>
   fst ` set (connections s) \<subseteq> (\<lambda>p. MarkerPoiSelected (ident (snd p))) ` set (markers s) \<Longrightarrow>
   fst ` set (connections s') \<subseteq> (\<lambda>p. MarkerPoiSelected (ident (snd p))) ` set (markers s') \<and>
   poi_selector_active s' = poi_selector_active s"
proof (induction names arbitrary: s)
  case Nil
  then show ?case by simp
next
  case (Cons n names)
  from Cons.prems(1) obtain pos where pos: "map_of poi_dict n = Some pos"
    and run: "add_new_markers e poi_dict names (add_poi_marker e n pos s) = Inr s'"
    by (auto split: option.splits)
  from add_poi_marker_owned [OF Cons.prems(2), of e n pos]
  have a: "fst ` set (connections (add_poi_marker e n pos s))
           \<subseteq> (\<lambda>p. MarkerPoiSelected (ident (snd p))) ` set (markers (add_poi_marker e n pos s))"
    and b: "poi_selector_active (add_poi_marker e n pos s) = poi_selector_active s"
    by simp_all
  from Cons.IH [OF run a] b show ?case by simp
qed

lemma update_select_idents:
  "map_of al k = Some m \<Longrightarrow>
   map (\<lambda>p. ident (snd p)) (AList.update k (select m) al) = map (\<lambda>p. ident (snd p)) al"
  by (induction al) (auto simp: select_fields split: if_splits)

lemma show_active_poi_owned:
  assumes "show_active_poi e poi_dict names s = Inr s'"
    and "fst ` set (connections s) \<subseteq> (\<lambda>p. MarkerPoiSelected (ident (snd p))) ` set (markers s)"
  shows "fst ` set (connections s') \<subseteq> (\<lambda>p. MarkerPoiSelected (ident (snd p))) ` set (markers s') \<and>
         poi_selector_active s' = poi_selector_active s"
proof -
  have ids: "(\<lambda>p. ident (snd p)) ` set (markers s') = (\<lambda>p. ident (snd p)) ` set (markers s)"
    and cn: "connections s' = connections s"
    and ps: "poi_selector_active s' = poi_selector_active s"
  proof -
    from assms(1) consider
      "s' = s\<lparr>active_poi_ComboBox := setCurrentIndex (-1) (active_poi_ComboBox s)\<rparr>" |
      a marker pos where "map_of (markers s) a = Some marker"
        "s' = s\<lparr>active_poi_ComboBox := setCurrentText a (active_poi_ComboBox s),
                markers := AList.update a (select marker) (markers s),
                poi_coords_label := Some pos\<rparr>"
      by (auto simp: show_active_poi_def split: option.splits if_splits)
    then have "(\<lambda>p. ident (snd p)) ` set (markers s') = (\<lambda>p. ident (snd p)) ` set (markers s) \<and>
        connections s' = connections s \<and> poi_selector_active s' = poi_selector_active s"
    proof cases
      case 1
      then show ?thesis by simp
    next
      case (2 a marker pos)
      from update_select_idents [OF 2(1)]
      have "set (map (\<lambda>p. ident (snd p)) (AList.update a (select marker) (markers s))) =
            set (map (\<lambda>p. ident (snd p)) (markers s))" by simp
      then show ?thesis unfolding 2(2) by simp
    qed
    then show "(\<lambda>p. ident (snd p)) ` set (markers s') = (\<lambda>p. ident (snd p)) ` set (markers s)"
      "connections s' = connections s" "poi_selector_active s' = poi_selector_active s"
      by simp_all
  qed
  have "(\<lambda>p. MarkerPoiSelected (ident (snd p))) ` set (markers s') =
        MarkerPoiSelected ` ((\<lambda>p. ident (snd p)) ` set (markers s'))"
    by (simp add: image_image)
  also have "\<dots> = (\<lambda>p. MarkerPoiSelected (ident (snd p))) ` set (markers s)"
    unfolding ids by (simp add: image_image)
  finally show ?thesis using assms(2) cn ps by simp
qed

lemma update_pois_owned:
  assumes "update_pois e poi_dict s = Inr s'" and "markers s = []" and "connections s = []"
  shows "fst ` set (connections s') \<subseteq> (\<lambda>p. MarkerPoiSelected (ident (snd p))) ` set (markers s') \<and>
         poi_selector_active s' = poi_selector_active s"
proof -
  let ?names = "natural_sort e (map fst poi_dict)"
  let ?s1 = "s\<lparr>active_poi_ComboBox := addItems ?names (clear (active_poi_ComboBox s))\<rparr>"
  have "update_pois e poi_dict s =
      (case add_new_markers e poi_dict (remdups ?names) (?s1\<lparr>markers := []\<rparr>) of
         Inl err \<Rightarrow> Inl err
       | Inr s3 \<Rightarrow> show_active_poi e poi_dict ?names s3)"
    by (simp add: update_pois_def Let_def assms(2))
  with assms(1) obtain s3 where
    a: "add_new_markers e poi_dict (remdups ?names) (?s1\<lparr>markers := []\<rparr>) = Inr s3" and
    b: "show_active_poi e poi_dict ?names s3 = Inr s'"
    by (auto split: sum.splits)
  have start: "fst ` set (connections (?s1\<lparr>markers := []\<rparr>))
      \<subseteq> (\<lambda>p. MarkerPoiSelected (ident (snd p))) ` set (markers (?s1\<lparr>markers := []\<rparr>))"
    by (simp add: assms(3))
  from add_new_markers_owned [OF a start]
  have c: "fst ` set (connections s3) \<subseteq> (\<lambda>p. MarkerPoiSelected (ident (snd p))) ` set (markers s3)"
    and d: "poi_selector_active s3 = poi_selector_active s" by simp_all
  from show_active_poi_owned [OF b c] d show ?thesis by simp
qed

lemma connect_all_connections: "connections (connect_all cs s) = connections s @ cs"
  by (simp add: connect_all_def fold_connect)

lemma connect_all_frame:
  "markers (connect_all cs s) = markers s"
  "poi_selector_active (connect_all cs s) = poi_selector_active s"
  by (simp_all add: connect_all_def)

text \<open>
  The connections after activation from the state after \<^verbatim>\<open>__init__\<close>: connections of
  markers of the dictionary, followed by the three groups.
\<close>

lemma on_activate_connections:
  assumes "on_activate e init_gui = Inr s"
  shows "\<exists>mk. connections s =
            mk @ internal_connections @ update_connections @ control_connections \<and>
          fst ` set mk \<subseteq> (\<lambda>p. MarkerPoiSelected (ident (snd p))) ` set (markers s) \<and>
          \<not> poi_selector_active s"
proof -
  from assms obtain s1 s2 where
    h: "init_roi_history_plot e (new_window (init_gui\<lparr>markers := []\<rparr>)) = Inr s1" and
    u: "update_pois e (logic_poi_positions e) s1 = Inr s2" and
    s: "s = connect_control_signals_to_logic
              (connect_update_signals_from_logic (connect_internal_signals s2))"
    by (auto simp: on_activate_def split: sum.splits)
  from update_roi_history_frame [OF h [unfolded init_roi_history_plot_def]]
  have s1: "markers s1 = []" "connections s1 = []" "\<not> poi_selector_active s1"
    by (simp_all add: new_window_def init_gui_def)
  from update_pois_owned [OF u s1(1,2)] s1(3)
  have own: "fst ` set (connections s2)
      \<subseteq> (\<lambda>p. MarkerPoiSelected (ident (snd p))) ` set (markers s2)"
    and ps: "\<not> poi_selector_active s2" by simp_all
  have c: "connections s =
      connections s2 @ internal_connections @ update_connections @ control_connections"
    unfolding s connect_control_signals_to_logic_def connect_update_signals_from_logic_def
      connect_internal_signals_def by (simp add: connect_all_connections)
  have m: "markers s = markers s2" "poi_selector_active s = poi_selector_active s2"
    unfolding s connect_control_signals_to_logic_def connect_update_signals_from_logic_def
      connect_internal_signals_def by (simp_all add: connect_all_frame)
  from c own ps m show ?thesis by auto
qed

section \<open>Deactivation\<close>

lemma disconnect_all_connections:
  "connections (disconnect_all sgs s) = filter (\<lambda>c. fst c \<notin> set sgs) (connections s)"
  by (simp add: disconnect_all_def fold_disconnect)

lemma disconnect_all_markers: "markers (disconnect_all sgs s) = markers s"
  by (simp add: disconnect_all_def)

lemma groups_after_disconnect:
  "filter (\<lambda>c. fst c \<notin> set internal_disconnected)
     (filter (\<lambda>c. fst c \<notin> set update_disconnected)
        (filter (\<lambda>c. fst c \<notin> set control_disconnected)
           (internal_connections @ update_connections @ control_connections))) =
   never_disconnected"
  by code_simp

lemma groups_no_marker_signal:
  "\<forall>c\<in>set (internal_connections @ update_connections @ control_connections).
      \<forall>i. fst c \<noteq> MarkerPoiSelected i"
  by (simp add: internal_connections_def update_connections_def control_connections_def)

lemma toggle_off_when_off:
  "\<not> poi_selector_active s \<Longrightarrow>
   connections (toggle_poi_selector False s) = connections s \<and>
   markers (toggle_poi_selector False s) = markers s"
  by (simp add: toggle_poi_selector_def Let_def)

text \<open>
  Whatever the backend holds, after activation and deactivation the connections that are
  left are the six that no disconnecting method names: every marker connection and every
  other connection of the three groups is gone.
\<close>

lemma deactivate_after_activate:
  assumes "on_activate e init_gui = Inr s"
  shows "connections (on_deactivate s) = never_disconnected"
proof -
  define g where "g = internal_connections @ update_connections @ control_connections"
  let ?msigs = "map (\<lambda>p. MarkerPoiSelected (ident (snd p))) (markers s)"
  from on_activate_connections [OF assms] obtain mk where
    c: "connections s = mk @ g" and
    own: "fst ` set mk \<subseteq> (\<lambda>p. MarkerPoiSelected (ident (snd p))) ` set (markers s)" and
    off: "\<not> poi_selector_active s"
    unfolding g_def by blast
  from toggle_off_when_off [OF off]
  have t: "connections (toggle_poi_selector False s) = mk @ g"
    "markers (toggle_poi_selector False s) = markers s"
    using c by simp_all
  have mk_gone: "filter (\<lambda>c. fst c \<notin> set ?msigs) (filter (\<lambda>c. fst c \<notin> set control_disconnected) mk) = []"
    using own by (auto simp: filter_empty_conv)
  have keep: "filter (\<lambda>c. fst c \<notin> set ?msigs) (filter (\<lambda>c. fst c \<notin> set control_disconnected) g) =
      filter (\<lambda>c. fst c \<notin> set control_disconnected) g"
  proof (rule filter_True)
    show "\<forall>c\<in>set (filter (\<lambda>c. fst c \<notin> set control_disconnected) g). fst c \<notin> set ?msigs"
      using groups_no_marker_signal unfolding g_def by auto
  qed
  have "connections (on_deactivate s) =
      filter (\<lambda>c. fst c \<notin> set internal_disconnected)
        (filter (\<lambda>c. fst c \<notin> set update_disconnected)
           (filter (\<lambda>c. fst c \<notin> set ?msigs)
              (filter (\<lambda>c. fst c \<notin> set control_disconnected) (mk @ g))))"
    unfolding on_deactivate_def disconnect_internal_signals_def
      disconnect_update_signals_from_logic_def disconnect_control_signals_to_logic_def
    by (simp only: disconnect_all_connections disconnect_all_markers t)
  also have "\<dots> =
      filter (\<lambda>c. fst c \<notin> set internal_disconnected)
        (filter (\<lambda>c. fst c \<notin> set update_disconnected)
           (filter (\<lambda>c. fst c \<notin> set control_disconnected) g))"
    by (simp only: filter_append mk_gone keep append_Nil)
  also have "\<dots> = never_disconnected"
    unfolding g_def by (rule groups_after_disconnect)
  finally show ?thesis .
qed

lemma activate_AB:
  "\<exists>s. on_activate (backend (Some ''A'') pois_AB) init_gui = Inr s"
proof -
  have h: "init_roi_history_plot (backend (Some ''A'') pois_AB)
        (new_window (init_gui\<lparr>markers := []\<rparr>)) =
      Inr (init_gui\<lparr>x_shift_plot := ([0], [0]), y_shift_plot := ([0], [0]),
             z_shift_plot := ([0], [0]), time_units := ''s''\<rparr>)"
    by (simp add: init_roi_history_plot_def update_roi_history_def np_max_def backend_def
        new_window_def init_gui_def)
  have u: "\<exists>s2. update_pois (backend (Some ''A'') pois_AB)
        (logic_poi_positions (backend (Some ''A'') pois_AB))
        (init_gui\<lparr>x_shift_plot := ([0], [0]), y_shift_plot := ([0], [0]),
             z_shift_plot := ([0], [0]), time_units := ''s''\<rparr>) = Inr s2"
    by (simp add: backend_def pois_AB_def init_gui_def sort_AB pois_defs marker_defs
      combo_defs Let_def)
  then obtain s2 where "update_pois (backend (Some ''A'') pois_AB)
        (logic_poi_positions (backend (Some ''A'') pois_AB))
        (init_gui\<lparr>x_shift_plot := ([0], [0]), y_shift_plot := ([0], [0]),
             z_shift_plot := ([0], [0]), time_units := ''s''\<rparr>) = Inr s2" by blast
  with h show ?thesis by (simp add: on_activate_def)
qed

text \<open>
  C2 fails on the code. With the two POIs \<open>A\<close> and \<open>B\<close> in the backend, activation
  succeeds, and after the deactivation that follows six of the connections made at
  activation are live: two of the window's own signals, two of the backend's update
  signals and two of the controls.
\<close>

theorem deactivate_leaves_six_connections:
  "(case on_activate (backend (Some ''A'') pois_AB) init_gui of
      Inl err \<Rightarrow> False
    | Inr s \<Rightarrow> connections (on_deactivate s) = never_disconnected) \<and>
   length never_disconnected = 6"
proof -
  from activate_AB obtain s where s: "on_activate (backend (Some ''A'') pois_AB) init_gui = Inr s"
    by blast
  from deactivate_after_activate [OF s] s show ?thesis
    by (simp add: never_disconnected_def)
qed

section \<open>Click to add\<close>

text \<open>
  The state of the click listener: the scan image's click signal has exactly one
  connection, to \<^verbatim>\<open>create_poi_from_click\<close>, when the placement mode is on and none when it
  is off, and \<^verbatim>\<open>sigAddPoiByClick\<close> has exactly one connection, to the backend's
  \<^verbatim>\<open>add_poi\<close>.
\<close>

lemma concat_map_filter:
  "(\<And>c. \<not> Q c \<Longrightarrow> h c = []) \<Longrightarrow> concat (map h cs) = concat (map h (filter Q cs))"
  by (induction cs) auto

lemma groups_click_signals:
  "filter (\<lambda>c. fst c = sigMouseClicked)
     (internal_connections @ update_connections @ control_connections) = [] \<and>
   filter (\<lambda>c. fst c = sigAddPoiByClick)
     (internal_connections @ update_connections @ control_connections) =
     [(sigAddPoiByClick, LogicSlot ''add_poi'')]"
  by code_simp

lemma listener_after_activate:
  assumes "on_activate e init_gui = Inr s"
  shows "\<not> poi_selector_active s \<and>
      filter (\<lambda>c. fst c = sigMouseClicked) (connections s) = [] \<and>
      filter (\<lambda>c. fst c = sigAddPoiByClick) (connections s) =
        [(sigAddPoiByClick, LogicSlot ''add_poi'')]"
proof -
  define g where "g = internal_connections @ update_connections @ control_connections"
  from on_activate_connections [OF assms] obtain mk where
    c: "connections s = mk @ g" and
    own: "fst ` set mk \<subseteq> (\<lambda>p. MarkerPoiSelected (ident (snd p))) ` set (markers s)" and
    off: "\<not> poi_selector_active s"
    unfolding g_def by blast
  have a: "filter (\<lambda>c. fst c = sigMouseClicked) mk = []"
    using own by (auto simp: filter_empty_conv sigMouseClicked_def)
  have b: "filter (\<lambda>c. fst c = sigAddPoiByClick) mk = []"
    using own by (auto simp: filter_empty_conv sigAddPoiByClick_def)
  from groups_click_signals have
    ga: "filter (\<lambda>c. fst c = sigMouseClicked) g = []" and
    gb: "filter (\<lambda>c. fst c = sigAddPoiByClick) g = [(sigAddPoiByClick, LogicSlot ''add_poi'')]"
    unfolding g_def by simp_all
  from off show ?thesis
    by (simp only: c filter_append a b ga gb append_Nil simp_thms)
qed

lemma toggle_listener:
  assumes "filter (\<lambda>c. fst c = sigMouseClicked) (connections s) =
             (if poi_selector_active s
              then [(sigMouseClicked, GuiSlot ''create_poi_from_click'')] else [])"
    and "filter (\<lambda>c. fst c = sigAddPoiByClick) (connections s) =
             [(sigAddPoiByClick, LogicSlot ''add_poi'')]"
  shows "poi_selector_active (toggle_poi_selector b s) = b \<and>
      filter (\<lambda>c. fst c = sigMouseClicked) (connections (toggle_poi_selector b s)) =
        (if b then [(sigMouseClicked, GuiSlot ''create_poi_from_click'')] else []) \<and>
      filter (\<lambda>c. fst c = sigAddPoiByClick) (connections (toggle_poi_selector b s)) =
        [(sigAddPoiByClick, LogicSlot ''add_poi'')]"
proof -
  have ne: "sigMouseClicked \<noteq> sigAddPoiByClick"
    by (simp add: sigMouseClicked_def sigAddPoiByClick_def)
  have f1: "filter (\<lambda>c. fst c = sigMouseClicked) (filter (\<lambda>c. fst c \<noteq> sigMouseClicked) cs) = []"
    for cs :: "connection list"
    by (induction cs) auto
  have f2: "filter (\<lambda>c. fst c = sigAddPoiByClick) (filter (\<lambda>c. fst c \<noteq> sigMouseClicked) cs) =
      filter (\<lambda>c. fst c = sigAddPoiByClick) cs" for cs :: "connection list"
    using ne by (induction cs) auto
  have f3: "filter (\<lambda>c. fst c \<noteq> sigMouseClicked \<and> fst c = sigMouseClicked) cs = []"
    for cs :: "connection list"
    by (induction cs) auto
  have f4: "filter (\<lambda>c. fst c \<noteq> sigMouseClicked \<and> fst c = sigAddPoiByClick) cs =
      filter (\<lambda>c. fst c = sigAddPoiByClick) cs" for cs :: "connection list"
    using ne by (induction cs) auto
  show ?thesis
  proof (cases "b = poi_selector_active s")
    case True
    then show ?thesis using assms by (auto simp: toggle_poi_selector_def Let_def)
  next
    case False
    then show ?thesis using assms ne
      by (cases b)
        (auto simp: toggle_poi_selector_def Let_def connect_def disconnect_def f1 f2 f3 f4)
  qed
qed

lemma toggles_listener:
  assumes "filter (\<lambda>c. fst c = sigMouseClicked) (connections s) =
             (if poi_selector_active s
              then [(sigMouseClicked, GuiSlot ''create_poi_from_click'')] else [])"
    and "filter (\<lambda>c. fst c = sigAddPoiByClick) (connections s) =
             [(sigAddPoiByClick, LogicSlot ''add_poi'')]"
  shows "poi_selector_active (fold toggle_poi_selector toggles s) =
           (if toggles = [] then poi_selector_active s else last toggles) \<and>
      filter (\<lambda>c. fst c = sigMouseClicked) (connections (fold toggle_poi_selector toggles s)) =
        (if poi_selector_active (fold toggle_poi_selector toggles s)
         then [(sigMouseClicked, GuiSlot ''create_poi_from_click'')] else []) \<and>
      filter (\<lambda>c. fst c = sigAddPoiByClick) (connections (fold toggle_poi_selector toggles s)) =
        [(sigAddPoiByClick, LogicSlot ''add_poi'')]"
  using assms
proof (induction toggles arbitrary: s)
  case Nil
  then show ?case by simp
next
  case (Cons b toggles)
  from toggle_listener [OF Cons.prems, of b]
  have t: "poi_selector_active (toggle_poi_selector b s) = b"
    "filter (\<lambda>c. fst c = sigMouseClicked) (connections (toggle_poi_selector b s)) =
        (if poi_selector_active (toggle_poi_selector b s)
         then [(sigMouseClicked, GuiSlot ''create_poi_from_click'')] else [])"
    "filter (\<lambda>c. fst c = sigAddPoiByClick) (connections (toggle_poi_selector b s)) =
        [(sigAddPoiByClick, LogicSlot ''add_poi'')]"
    by simp_all
  from Cons.IH [OF t(2,3)] t(1) show ?case by simp
qed

lemma emit_one_listener:
  assumes "filter (\<lambda>c. fst c = sigAddPoiByClick) (connections s) =
             [(sigAddPoiByClick, LogicSlot ''add_poi'')]"
  shows "emit_sigAddPoiByClick s new_pos = [(''add_poi'', new_pos)]"
proof -
  let ?h = "\<lambda>c. case c of
               (sg, LogicSlot name) \<Rightarrow> if sg = sigAddPoiByClick then [(name, new_pos)] else []
             | _ \<Rightarrow> []"
  have "concat (map ?h (connections s)) =
        concat (map ?h (filter (\<lambda>c. fst c = sigAddPoiByClick) (connections s)))"
    by (rule concat_map_filter) (auto split: slot.splits)
  then show ?thesis unfolding emit_sigAddPoiByClick_def assms by simp
qed

lemma mouse_click_listener:
  assumes "filter (\<lambda>c. fst c = sigMouseClicked) (connections s) =
             (if poi_selector_active s
              then [(sigMouseClicked, GuiSlot ''create_poi_from_click'')] else [])"
    and "filter (\<lambda>c. fst c = sigAddPoiByClick) (connections s) =
             [(sigAddPoiByClick, LogicSlot ''add_poi'')]"
  shows "mouse_click e s (x, y) button =
           (if poi_selector_active s \<and> button = LeftButton
            then [(''add_poi'', (x, y, snd (snd (logic_roi_origin e))))] else [])"
proof -
  let ?X = "concat (map (emit_sigAddPoiByClick s) (create_poi_from_click e (x, y) button))"
  let ?h = "\<lambda>c. if c = (sigMouseClicked, GuiSlot ''create_poi_from_click'') then ?X else []"
  have "concat (map ?h (connections s)) =
        concat (map ?h (filter (\<lambda>c. fst c = sigMouseClicked) (connections s)))"
    by (rule concat_map_filter) auto
  then have m: "mouse_click e s (x, y) button = (if poi_selector_active s then ?X else [])"
    unfolding mouse_click_def assms(1) by simp
  have X: "?X = (if button = LeftButton
                 then [(''add_poi'', (x, y, snd (snd (logic_roi_origin e))))] else [])"
    by (simp add: create_poi_from_click_def emit_one_listener [OF assms(2)])
  show ?thesis unfolding m X by simp
qed

text \<open>
  C5. After activation and any sequence of switching the placement mode, the mode is what
  the last switch set (off if there was none). A click on the scan image then produces no
  backend call when the mode is off, no backend call when the button is not the left one,
  and exactly one call of \<^verbatim>\<open>add_poi\<close> when the mode is on and the button is the left one;
  the position given has the click's \<open>x\<close> and \<open>y\<close> and the \<open>z\<close> of the ROI origin that the
  backend has at the time of the click.
\<close>

theorem click_to_add:
  assumes "on_activate e init_gui = Inr s0"
    and "s = fold toggle_poi_selector toggles s0"
  shows "poi_selector_active s = (if toggles = [] then False else last toggles) \<and>
         mouse_click e' s (x, y) button =
           (if poi_selector_active s \<and> button = LeftButton
            then [(''add_poi'', (x, y, snd (snd (logic_roi_origin e'))))] else [])"
proof -
  from listener_after_activate [OF assms(1)] have
    off: "\<not> poi_selector_active s0" and
    a: "filter (\<lambda>c. fst c = sigMouseClicked) (connections s0) =
             (if poi_selector_active s0
              then [(sigMouseClicked, GuiSlot ''create_poi_from_click'')] else [])" and
    b: "filter (\<lambda>c. fst c = sigAddPoiByClick) (connections s0) =
             [(sigAddPoiByClick, LogicSlot ''add_poi'')]"
    by simp_all
  from toggles_listener [OF a b, of toggles] have
    t: "poi_selector_active s = (if toggles = [] then poi_selector_active s0 else last toggles)"
    "filter (\<lambda>c. fst c = sigMouseClicked) (connections s) =
        (if poi_selector_active s
         then [(sigMouseClicked, GuiSlot ''create_poi_from_click'')] else [])"
    "filter (\<lambda>c. fst c = sigAddPoiByClick) (connections s) =
        [(sigAddPoiByClick, LogicSlot ''add_poi'')]"
    unfolding assms(2) by simp_all
  from t(1) off mouse_click_listener [OF t(2,3), of e' x y button] show ?thesis by simp
qed

theorem click_to_add_witness:
  "\<exists>s0. on_activate (backend (Some ''A'') pois_AB) init_gui = Inr s0 \<and>
      mouse_click (backend (Some ''A'') pois_AB) (fold toggle_poi_selector [True] s0)
        (5, 7) LeftButton = [(''add_poi'', (5, 7, 30))] \<and>
      mouse_click (backend (Some ''A'') pois_AB) (fold toggle_poi_selector [True] s0)
        (5, 7) RightButton = [] \<and>
      mouse_click (backend (Some ''A'') pois_AB) (fold toggle_poi_selector [True, False] s0)
        (5, 7) LeftButton = [] \<and>
      mouse_click (backend (Some ''A'') pois_AB) s0 (5, 7) LeftButton = []"
proof -
  from activate_AB obtain s0 where
    h: "on_activate (backend (Some ''A'') pois_AB) init_gui = Inr s0"
    by blast
  have z: "snd (snd (logic_roi_origin (backend (Some ''A'') pois_AB))) = 30"
    by (simp add: backend_def)
  from click_to_add [OF h refl, of "[True]" "backend (Some ''A'') pois_AB" 5 7 LeftButton]
    click_to_add [OF h refl, of "[True]" "backend (Some ''A'') pois_AB" 5 7 RightButton]
    click_to_add [OF h refl, of "[True, False]" "backend (Some ''A'') pois_AB" 5 7 LeftButton]
    click_to_add [OF h refl, of "[]" "backend (Some ''A'') pois_AB" 5 7 LeftButton]
  have "mouse_click (backend (Some ''A'') pois_AB) (fold toggle_poi_selector [True] s0)
        (5, 7) LeftButton = [(''add_poi'', (5, 7, 30))] \<and>
      mouse_click (backend (Some ''A'') pois_AB) (fold toggle_poi_selector [True] s0)
        (5, 7) RightButton = [] \<and>
      mouse_click (backend (Some ''A'') pois_AB) (fold toggle_poi_selector [True, False] s0)
        (5, 7) LeftButton = [] \<and>
      mouse_click (backend (Some ''A'') pois_AB) s0 (5, 7) LeftButton = []"
    by (simp add: z)
  with h show ?thesis by blast
qed

section \<open>The selected marker\<close>

text \<open>
  \<^verbatim>\<open>update_active_poi\<close> deselects before it selects: from the state in which the marker
  of \<open>A\<close> is selected, the notification that \<open>B\<close> is active leaves the marker of \<open>B\<close>
  as the only one selected.
\<close>

lemma update_active_poi_deselects:
  "map (\<lambda>p. (fst p, selected (snd p)))
     (markers (update_active_poi (backend (Some ''B'') pois_AB) ''B'' gui_AB)) =
   [(''A'', False), (''B'', True)]"
  by (simp add: update_active_poi_def backend_def pois_AB_def gui_AB_def init_gui_def
      marker_defs combo_defs Let_def)

text \<open>
  C1 fails on the code. \<^verbatim>\<open>_update_pois\<close> selects the marker of the backend's active POI
  and deselects none. The first call below is the one activation makes, with \<open>A\<close> active:
  it creates the two markers and selects the marker of \<open>A\<close>. The second is the one a ROI
  update makes when \<open>B\<close> has become the backend's active POI: afterwards both markers are
  selected, and the dropdown shows \<open>B\<close>.
\<close>

theorem two_markers_selected:
  "update_pois (backend (Some ''A'') pois_AB) pois_AB init_gui = Inr gui_AB \<and>
   update_pois (backend (Some ''B'') pois_AB) pois_AB gui_AB = Inr gui_AB_both \<and>
   map (\<lambda>p. (fst p, selected (snd p))) (markers gui_AB) = [(''A'', True), (''B'', False)] \<and>
   map (\<lambda>p. (fst p, selected (snd p))) (markers gui_AB_both) = [(''A'', True), (''B'', True)] \<and>
   currentText (active_poi_ComboBox gui_AB_both) = ''B''"
  by (simp add: backend_def pois_AB_def init_gui_def gui_AB_def gui_AB_both_def sort_AB
      pois_defs marker_defs combo_defs Let_def)

section \<open>A notification for a name without marker\<close>

text \<open>
  A rename of a POI that has a marker goes through: when the backend has renamed \<open>A\<close> to
  \<open>C\<close>, the notification re-keys the marker of \<open>A\<close>, and the dropdown, which showed
  \<open>A\<close>, follows the rename.
\<close>

lemma sort_BC: "sort [''B'', ''C''] = [''B'', ''C'']"
  by code_simp

lemma update_poi_rename:
  "\<exists>s'. update_poi (backend (Some ''C'') pois_BC) ''A'' ''C'' (1, 1, 1) gui_AB = Inr s' \<and>
        map (\<lambda>p. (fst p, ident (snd p), selected (snd p))) (markers s') =
          [(''B'', 1, False), (''C'', 0, True)] \<and>
        currentText (active_poi_ComboBox s') = ''C''"
  by (simp add: update_poi_def backend_def pois_BC_def gui_AB_def init_gui_def sort_BC
      marker_defs combo_defs xy_def Let_def)

text \<open>
  C9 fails on the code. With the markers of \<open>A\<close> and \<open>B\<close> in the dictionary, the
  notification that the POI \<open>X\<close> was renamed to \<open>Y\<close> makes \<^verbatim>\<open>update_poi\<close> index the
  dictionary with \<open>X\<close>: the handler raises \<^verbatim>\<open>KeyError\<close>.
\<close>

theorem update_poi_unknown_name_raises:
  "update_poi (backend (Some ''A'') pois_AB) ''X'' ''Y'' (0, 0, 0) gui_AB = Inl (KeyError ''X'')"
  by (simp add: update_poi_def backend_def pois_AB_def init_gui_def gui_AB_def sort_AB
      combo_defs Let_def)

end
